theory Spec2Isabelle
  imports Main "HOL-Library.Word"
begin

section \<open>Data model (models/LogEntry.js)\<close>

text \<open>
  The \<open>transcriptionStatus\<close> enum of the \<open>audioRecordings\<close> sub-document, and the
  sub-document itself with the defaults of the schema: every optional field defaults to
  \<open>null\<close> (here \<open>None\<close>), the status to \<open>not_requested\<close>. Dates are milliseconds since
  the epoch. The field \<open>size\<close> of the schema is called \<open>size_bytes\<close>.
\<close>

datatype transcription_status = Pending | Processing | Completed | Failed | Not_requested

type_synonym bytes = "8 word list"

record audio_recording =
  url :: string
  filename :: string
  duration :: "int option"
  size_bytes :: "nat option"
  uploadedAt :: nat
  transcript :: "string option"
  transcriptionStatus :: transcription_status
  transcriptionError :: "string option"
  transcriptionTimestamp :: "nat option"
  improvedTranscript :: "string option"
  improvedTranscriptTimestamp :: "nat option"
  aiResponse :: "string option"
  aiResponseTimestamp :: "nat option"

record log_entry =
  entry_id :: string
  userId :: string
  audioRecordings :: "audio_recording list"

text \<open>
  \<open>arr[i]\<close> on a JavaScript array: \<open>undefined\<close> outside the range (a negative index, an
  index past the end, and \<open>NaN\<close> from \<open>parseInt\<close>, which behaves as any index out of range).
\<close>

definition nth_opt :: "'a list \<Rightarrow> int \<Rightarrow> 'a option" where
  "nth_opt xs i = (if 0 \<le> i \<and> nat i < length xs then Some (xs ! nat i) else None)"

text \<open>\<open>logEntry.audioRecordings[i].field = v\<close>, for an index that is in range.\<close>

definition update_recording ::
  "log_entry \<Rightarrow> int \<Rightarrow> (audio_recording \<Rightarrow> audio_recording) \<Rightarrow> log_entry" where
  "update_recording logEntry i f =
     logEntry\<lparr>audioRecordings :=
       (audioRecordings logEntry)[nat i := f (audioRecordings logEntry ! nat i)]\<rparr>"

section \<open>The world the handlers act on\<close>

text \<open>
  A stored file is readable (its bytes) or present but unreadable (\<open>readFile\<close> throws the
  given message); an absent path is \<open>None\<close>.
\<close>

datatype stored_file = Readable bytes | Unreadable string

record recognize_request =
  content :: bytes
  encoding :: string
  sampleRateHertz :: nat
  languageCode :: string
  wordDetails :: bool

text \<open>
  A job of the queue and the options it is added with (config/queue.js). The delay of the
  backoff is in milliseconds.
\<close>

record job_data =
  job_entryId :: string
  job_audioUrl :: string
  job_recordingIndex :: "int option"

record job_options =
  attempts :: nat
  backoff_type :: string
  backoff_delay :: nat
  removeOnComplete :: nat
  removeOnFail :: nat

text \<open>
  What a handler does to the outside, in order: a \<open>save\<close> of a document, a call of the file
  system, a call of one of the two transcription functions of config/googleCloud.js, an
  \<open>add\<close> to the queue, a retry the queue schedules, a call of the generative model.
\<close>

datatype event =
    SaveEntry log_entry
  | FsStat string
  | FsReadFile string
  | FsWriteFile string
  | CallTranscribeAudio bytes
  | CallTranscribeLongAudio bytes
  | QueueAdd job_data job_options
  | RetryScheduled nat
  | GenerateContent string

record world =
  store :: "string \<Rightarrow> log_entry option"
  files :: "string \<Rightarrow> stored_file option"
  events :: "event list"

text \<open>
  The collaborators the code calls and does not define: the speech client of the Google
  library (\<open>None\<close> when no credentials are configured; a call answers with an error message
  or with the results, each result being the list of its alternatives' transcripts),
  \<open>path.join(__dirname, "..", p)\<close>, the clock, the generative model (a prompt is
  answered with a text or with an error message), the two exports of config/queue.js that
  the dispatcher reads (the queue is \<open>None\<close> when it is \<open>null\<close>; its \<open>add\<close> answers
  \<open>None\<close> when the job is accepted and the message of the error when it throws), whether
  \<open>fs.writeFile\<close> throws on a path, the \<open>_id\<close> a new document gets, and whether
  the entry store rejects the save of a transcribed document, the save with which each of
  the three workers ends its \<open>try\<close> block (\<open>None\<close> when the store accepts the document,
  the message of the error when it rejects it).
\<close>

record speech_client =
  recognize :: "recognize_request \<Rightarrow> string + string list list"
  longRunningRecognize :: "recognize_request \<Rightarrow> string + string list list"

record env =
  speechClient :: "speech_client option"
  resolve :: "string \<Rightarrow> string"
  now :: nat
  generateContent :: "string \<Rightarrow> string + string"
  transcriptionQueue :: "(job_data \<Rightarrow> job_options \<Rightarrow> string option) option"
  redisAvailable :: bool
  writeFile_error :: "string \<Rightarrow> string option"
  new_entry_id :: string
  save_rejected :: "log_entry \<Rightarrow> string option"

definition emit :: "event \<Rightarrow> world \<Rightarrow> world" where
  "emit e w = w\<lparr>events := events w @ [e]\<rparr>"

text \<open>
  \<open>await logEntry.save()\<close> when the store accepts the document: it replaces the stored
  one. The save of a transcribed document at the end of a worker's \<open>try\<close> block can be
  rejected (\<open>save_rejected\<close>), and the worker's \<open>catch\<close> then runs; the store is taken
  to accept every other save.
\<close>

definition save :: "log_entry \<Rightarrow> world \<Rightarrow> world" where
  "save logEntry w =
     emit (SaveEntry logEntry) (w\<lparr>store := (store w)(entry_id logEntry \<mapsto> logEntry)\<rparr>)"

section \<open>config/googleCloud.js\<close>

text \<open>\<open>xs.join("\n")\<close>.\<close>

fun join_nl :: "string list \<Rightarrow> string" where
  "join_nl [] = []"
| "join_nl [x] = x"
| "join_nl (x # y # ys) = x @ [CHR 0x0A] @ join_nl (y # ys)"

text \<open>
  \<open>results.map((result) => result.alternatives[0].transcript)\<close>: a result without an
  alternative makes the callback throw a TypeError.
\<close>

fun first_alternatives :: "string list list \<Rightarrow> string + string list" where
  "first_alternatives [] = Inr []"
| "first_alternatives (r # rs) =
     (case r of
        [] \<Rightarrow> Inl ''Cannot read properties of undefined (reading 'transcript')''
      | a # _ \<Rightarrow>
          (case first_alternatives rs of
             Inl e \<Rightarrow> Inl e
           | Inr ts \<Rightarrow> Inr (a # ts)))"

definition transcription_of :: "string + string list list \<Rightarrow> string + string" where
  "transcription_of response =
     (case response of
        Inl e \<Rightarrow> Inl e
      | Inr results \<Rightarrow>
          (case first_alternatives results of
             Inl e \<Rightarrow> Inl e
           | Inr ts \<Rightarrow> Inr (join_nl ts)))"

text \<open>
  \<open>transcribeAudio\<close> and \<open>transcribeLongAudio\<close>: the \<open>transcript\<close> field of the object
  they return (the other fields are not read by any caller), or the message of the error
  they throw.
\<close>

definition transcribeAudio :: "env \<Rightarrow> bytes \<Rightarrow> string \<Rightarrow> nat \<Rightarrow> string \<Rightarrow> string + string" where
  "transcribeAudio env audioBuffer enc rate lang =
     (case speechClient env of
        None \<Rightarrow> Inl ''Google Cloud Speech-to-Text not initialized''
      | Some client \<Rightarrow>
          transcription_of (recognize client
            \<lparr>content = audioBuffer, encoding = enc, sampleRateHertz = rate,
             languageCode = lang, wordDetails = False\<rparr>))"

definition transcribeLongAudio :: "env \<Rightarrow> bytes \<Rightarrow> string \<Rightarrow> nat \<Rightarrow> string \<Rightarrow> string + string" where
  "transcribeLongAudio env audioBuffer enc rate lang =
     (case speechClient env of
        None \<Rightarrow> Inl ''Google Cloud Speech-to-Text not initialized''
      | Some client \<Rightarrow>
          transcription_of (longRunningRecognize client
            \<lparr>content = audioBuffer, encoding = enc, sampleRateHertz = rate,
             languageCode = lang, wordDetails = True\<rparr>))"

section \<open>routes/audio.js\<close>

datatype response =
    TranscriptionCompleted int "string option"
  | StatusView transcription_status "string option" "string option" "nat option"
  | TranscriptImproved string
  | AudioUploaded int audio_recording
  | EntryCreated log_entry
  | ErrorResponse nat string "string option" "string option"

text \<open>The error responses the specification names.\<close>

definition AlreadyInProgress :: response where
  "AlreadyInProgress =
     ErrorResponse 400 ''Transcription already in progress'' (Some ''TRANSCRIPTION_IN_PROGRESS'') None"

definition TranscriptRequired :: response where
  "TranscriptRequired = ErrorResponse 400 ''Audio must be transcribed first'' None None"

definition enoent :: "string \<Rightarrow> string \<Rightarrow> string" where
  "enoent syscall p =
     ''ENOENT: no such file or directory, '' @ syscall @ '' '' @ [CHR 0x27] @ p @ [CHR 0x27]"

text \<open>
  \<open>LogEntry.findOne({ _id: entryId, userId: user._id })\<close>: the stored document with this
  \<open>_id\<close> that belongs to the user.
\<close>

definition findOne :: "world \<Rightarrow> string \<Rightarrow> string \<Rightarrow> log_entry option" where
  "findOne w entryId user =
     (case store w entryId of
        None \<Rightarrow> None
      | Some logEntry \<Rightarrow>
          if entry_id logEntry = entryId \<and> userId logEntry = user then Some logEntry else None)"

text \<open>\<open>u.startsWith('/') ? u.substring(1) : u\<close>.\<close>

definition strip_leading_slash :: "string \<Rightarrow> string" where
  "strip_leading_slash u =
     (case u of
        [] \<Rightarrow> []
      | c # cs \<Rightarrow> if c = CHR ''/'' then cs else c # cs)"

text \<open>
  The \<open>try\<close> block of \<open>ProcessTranscription\<close>. \<open>stats.size / (1024 * 1024) > 1\<close> divides by
  a power of two, which is exact in binary floating point, so the test is
  \<open>stats.size > 1024 * 1024\<close>. The transcript the two transcription functions return is
  always a string, so \<open>result.transcript || ""\<close> is that string. When the store rejects
  the save that ends the block, the error is thrown with the document already changed.
\<close>

definition ProcessTranscription_try ::
  "env \<Rightarrow> log_entry \<Rightarrow> int \<Rightarrow> world \<Rightarrow> (string + string) \<times> log_entry \<times> world" where
  "ProcessTranscription_try env logEntry audioIndex w =
     (case nth_opt (audioRecordings logEntry) audioIndex of
        None \<Rightarrow> (Inl ''Cannot read properties of undefined (reading 'url')'', logEntry, w)
      | Some audio \<Rightarrow>
          (let relativeUrl = strip_leading_slash (url audio);
               audioPath = resolve env relativeUrl;
               w1 = emit (FsStat audioPath) w
           in case files w1 audioPath of
                None \<Rightarrow> (Inl (enoent ''stat'' audioPath), logEntry, w1)
              | Some f \<Rightarrow>
                  (let w2 = emit (FsReadFile audioPath) w1
                   in case f of
                        Unreadable msg \<Rightarrow> (Inl msg, logEntry, w2)
                      | Readable audioBuffer \<Rightarrow>
                          (let long = (length audioBuffer > 1024 * 1024);
                               w3 = emit (if long then CallTranscribeLongAudio audioBuffer
                                          else CallTranscribeAudio audioBuffer) w2;
                               result = (if long
                                         then transcribeLongAudio env audioBuffer ''WEBM_OPUS'' 48000 ''en-US''
                                         else transcribeAudio env audioBuffer ''WEBM_OPUS'' 48000 ''en-US'')
                           in case result of
                                Inl msg \<Rightarrow> (Inl msg, logEntry, w3)
                              | Inr t \<Rightarrow>
                                  (let logEntry' = update_recording logEntry audioIndex
                                         (\<lambda>r. r\<lparr>transcript := Some t,
                                                transcriptionStatus := Completed,
                                                transcriptionTimestamp := Some (now env)\<rparr>)
                                   in case save_rejected env logEntry' of
                                        Some msg \<Rightarrow> (Inl msg, logEntry', w3)
                                      | None \<Rightarrow> (Inr t, logEntry', save logEntry' w3))))))"

text \<open>
  The \<open>catch\<close> block: it marks the recording failed, saves and throws the error again.
  It works on the document as the \<open>try\<close> block left it: after a rejected save that
  document already has the new transcript, the status \<open>completed\<close> and the timestamp
  assigned. When the index addresses no recording the assignment itself throws.
\<close>

definition ProcessTranscription_catch ::
  "string \<Rightarrow> log_entry \<Rightarrow> int \<Rightarrow> world \<Rightarrow> (string + string) \<times> log_entry \<times> world" where
  "ProcessTranscription_catch msg logEntry audioIndex w =
     (case nth_opt (audioRecordings logEntry) audioIndex of
        None \<Rightarrow>
          (Inl ''Cannot set properties of undefined (setting 'transcriptionStatus')'', logEntry, w)
      | Some _ \<Rightarrow>
          (let logEntry' = update_recording logEntry audioIndex
                 (\<lambda>r. r\<lparr>transcriptionStatus := Failed, transcriptionError := Some msg\<rparr>)
           in (Inl msg, logEntry', save logEntry' w)))"

definition ProcessTranscription ::
  "env \<Rightarrow> log_entry \<Rightarrow> int \<Rightarrow> world \<Rightarrow> (string + string) \<times> log_entry \<times> world" where
  "ProcessTranscription env logEntry audioIndex w =
     (case ProcessTranscription_try env logEntry audioIndex w of
        (Inr t, logEntry', w') \<Rightarrow> (Inr t, logEntry', w')
      | (Inl msg, logEntry', w') \<Rightarrow> ProcessTranscription_catch msg logEntry' audioIndex w')"

text \<open>
  \<open>POST /api/audio/transcribe/:entryId/:audioIndex\<close> (\<open>requestTranscription\<close> in the
  specification). The answer after the worker has run, as its own function:
\<close>

definition transcribe_response ::
  "int \<Rightarrow> (string + string) \<times> log_entry \<times> world \<Rightarrow> response \<times> world" where
  "transcribe_response audioIndex outcome =
     (case outcome of
        (Inr _, logEntry, w) \<Rightarrow>
          (TranscriptionCompleted audioIndex
             (case nth_opt (audioRecordings logEntry) audioIndex of
                None \<Rightarrow> None
              | Some r \<Rightarrow> transcript r), w)
      | (Inl msg, _, w) \<Rightarrow>
          (ErrorResponse 500 ''Failed to transcribe audio'' (Some ''TRANSCRIPTION_ERROR'') (Some msg), w))"

definition requestTranscription ::
  "env \<Rightarrow> string \<Rightarrow> string \<Rightarrow> int \<Rightarrow> world \<Rightarrow> response \<times> world" where
  "requestTranscription env user entryId audioIndex w =
     (case findOne w entryId user of
        None \<Rightarrow> (ErrorResponse 404 ''Log entry not found'' (Some ''ENTRY_NOT_FOUND'') None, w)
      | Some logEntry \<Rightarrow>
          (case nth_opt (audioRecordings logEntry) audioIndex of
             None \<Rightarrow> (ErrorResponse 400 ''Audio recording not found'' (Some ''AUDIO_NOT_FOUND'') None, w)
           | Some audio \<Rightarrow>
               if transcriptionStatus audio = Processing then (AlreadyInProgress, w)
               else
                 (let logEntry' = update_recording logEntry audioIndex
                        (\<lambda>r. r\<lparr>transcriptionStatus := Processing\<rparr>)
                  in transcribe_response audioIndex
                       (ProcessTranscription env logEntry' audioIndex (save logEntry' w)))))"

text \<open>
  \<open>GET /api/audio/transcription/:entryId/:audioIndex\<close> (\<open>getStatus\<close> in the
  specification).
\<close>

definition getStatus :: "string \<Rightarrow> string \<Rightarrow> int \<Rightarrow> world \<Rightarrow> response" where
  "getStatus user entryId audioIndex w =
     (case findOne w entryId user of
        None \<Rightarrow> ErrorResponse 404 ''Log entry not found'' (Some ''ENTRY_NOT_FOUND'') None
      | Some logEntry \<Rightarrow>
          (case nth_opt (audioRecordings logEntry) audioIndex of
             None \<Rightarrow> ErrorResponse 404 ''Audio recording not found'' (Some ''AUDIO_NOT_FOUND'') None
           | Some audio \<Rightarrow>
               StatusView (transcriptionStatus audio) (transcript audio)
                 (transcriptionError audio) (transcriptionTimestamp audio)))"

text \<open>The recording a stored entry holds at an index, whoever owns the entry.\<close>

definition recording_at :: "world \<Rightarrow> string \<Rightarrow> int \<Rightarrow> audio_recording option" where
  "recording_at w entryId i =
     (case store w entryId of
        None \<Rightarrow> None
      | Some logEntry \<Rightarrow> nth_opt (audioRecordings logEntry) i)"

text \<open>
  \<open>POST /api/audio/improve-transcript/:entryId/:audioIndex\<close> (\<open>improveTranscript\<close>).
  \<open>!audio.transcript\<close> holds for \<open>null\<close> and for the empty string.
\<close>

definition improve_prompt :: "string \<Rightarrow> string" where
  "improve_prompt t =
     ''Please restructure and improve the following medical transcript. Add appropriate headings, organize into sections, and improve readability while preserving all clinical information:''
     @ [CHR 0x0A, CHR 0x0A] @ t"

definition improveTranscript ::
  "env \<Rightarrow> string \<Rightarrow> string \<Rightarrow> int \<Rightarrow> world \<Rightarrow> response \<times> world" where
  "improveTranscript env user entryId audioIndex w =
     (case findOne w entryId user of
        None \<Rightarrow> (ErrorResponse 404 ''Log entry not found'' None None, w)
      | Some logEntry \<Rightarrow>
          (case nth_opt (audioRecordings logEntry) audioIndex of
             None \<Rightarrow> (ErrorResponse 404 ''Audio recording not found'' None None, w)
           | Some audio \<Rightarrow>
               (case transcript audio of
                  None \<Rightarrow> (TranscriptRequired, w)
                | Some t \<Rightarrow>
                    if t = [] then (TranscriptRequired, w)
                    else
                      (let prompt = improve_prompt t;
                           w1 = emit (GenerateContent prompt) w
                       in case generateContent env prompt of
                            Inl msg \<Rightarrow>
                              (ErrorResponse 500 ''Failed to improve transcript'' None (Some msg), w1)
                          | Inr improved \<Rightarrow>
                              (let logEntry' = update_recording logEntry audioIndex
                                     (\<lambda>r. r\<lparr>improvedTranscript := Some improved,
                                            improvedTranscriptTimestamp := Some (now env)\<rparr>)
                               in (TranscriptImproved improved, save logEntry' w1))))))"

text \<open>
  \<open>POST /api/audio/upload/:entryId\<close>. An uploaded file is its original name and its
  bytes (\<open>audioFile.size\<close> is their number). \<open>n.toString()\<close> for a natural number:
\<close>

record uploaded_file =
  originalname :: string
  buffer :: bytes

fun show_nat :: "nat \<Rightarrow> string" where
  "show_nat n =
     (if n < 10 then [''0123456789'' ! n]
      else show_nat (n div 10) @ [''0123456789'' ! (n mod 10)])"

declare show_nat.simps [simp del]

definition show_int :: "int \<Rightarrow> string" where
  "show_int i = (if i < 0 then CHR ''-'' # show_nat (nat (- i)) else show_nat (nat i))"

text \<open>A new sub-document: the fields given, the defaults of the schema for the others.\<close>

definition new_recording ::
  "string \<Rightarrow> string \<Rightarrow> nat \<Rightarrow> int option \<Rightarrow> nat \<Rightarrow> transcription_status \<Rightarrow> audio_recording" where
  "new_recording u name sz dur at st =
     \<lparr>url = u, filename = name, duration = dur, size_bytes = Some sz, uploadedAt = at,
      transcript = None, transcriptionStatus = st, transcriptionError = None,
      transcriptionTimestamp = None, improvedTranscript = None,
      improvedTranscriptTimestamp = None, aiResponse = None, aiResponseTimestamp = None\<rparr>"

text \<open>
  The handler answers with the response, the world at the moment it answers, and the world
  once the worker it started has finished. The promise of \<open>ProcessTranscription\<close> is not
  awaited: the worker is suspended at its first \<open>await\<close> (the \<open>fs.stat\<close>) when the handler
  answers, so none of its writes has happened then. \<open>durationParam\<close> is
  \<open>parseInt(req.body.duration)\<close>, \<open>None\<close> for \<open>NaN\<close>; \<open>|| null\<close> turns 0 into \<open>null\<close> too.
  \<open>path.join(audioDir, filename)\<close> is \<open>path.join(__dirname, "..", "uploads/audio/" + filename)\<close>.
\<close>

definition upload ::
  "env \<Rightarrow> string \<Rightarrow> string \<Rightarrow> uploaded_file option \<Rightarrow> int option \<Rightarrow> world
     \<Rightarrow> response \<times> world \<times> world" where
  "upload env user entryId audioFile durationParam w =
     (case audioFile of
        None \<Rightarrow> (ErrorResponse 400 ''No audio file provided'' (Some ''NO_AUDIO_FILE'') None, w, w)
      | Some f \<Rightarrow>
          (case findOne w entryId user of
             None \<Rightarrow> (ErrorResponse 404 ''Log entry not found'' (Some ''ENTRY_NOT_FOUND'') None, w, w)
           | Some logEntry \<Rightarrow>
               (let fname = user @ ''_'' @ show_nat (now env) @ ''_'' @ originalname f;
                    audioPath = resolve env (''uploads/audio/'' @ fname);
                    w1 = emit (FsWriteFile audioPath) w
                in case writeFile_error env audioPath of
                     Some msg \<Rightarrow>
                       (ErrorResponse 500 ''Failed to upload audio'' (Some ''UPLOAD_ERROR'') (Some msg), w1, w1)
                   | None \<Rightarrow>
                       (let w2 = w1\<lparr>files := (files w1)(audioPath \<mapsto> Readable (buffer f))\<rparr>;
                            newAudio = new_recording (''/uploads/audio/'' @ fname) (originalname f)
                              (length (buffer f))
                              (case durationParam of None \<Rightarrow> None
                               | Some d \<Rightarrow> if d = 0 then None else Some d)
                              (now env) Not_requested;
                            logEntry1 = logEntry\<lparr>audioRecordings := audioRecordings logEntry @ [newAudio]\<rparr>;
                            w3 = save logEntry1 w2;
                            audioIndex = int (length (audioRecordings logEntry1)) - 1;
                            logEntry2 = update_recording logEntry1 audioIndex
                              (\<lambda>r. r\<lparr>transcriptionStatus := Processing\<rparr>);
                            w4 = save logEntry2 w3
                        in (AudioUploaded audioIndex (newAudio\<lparr>transcriptionStatus := Processing\<rparr>),
                            w4,
                            snd (snd (ProcessTranscription env logEntry2 audioIndex w4)))))))"

section \<open>config/queue.js\<close>

definition defaultJobOptions :: job_options where
  "defaultJobOptions =
     \<lparr>attempts = 3, backoff_type = ''exponential'', backoff_delay = 2000,
      removeOnComplete = 100, removeOnFail = 200\<rparr>"

section \<open>jobs/transcriptionProcessor.js\<close>

text \<open>\<open>LogEntry.findById(entryId)\<close>.\<close>

definition findById :: "world \<Rightarrow> string \<Rightarrow> log_entry option" where
  "findById w entryId =
     (case store w entryId of
        None \<Rightarrow> None
      | Some logEntry \<Rightarrow> if entry_id logEntry = entryId then Some logEntry else None)"

text \<open>\<open>job.data.recordingIndex || 0\<close>: an absent index, \<open>NaN\<close> and 0 all give 0.\<close>

definition job_index :: "job_data \<Rightarrow> int" where
  "job_index job = (case job_recordingIndex job of None \<Rightarrow> 0 | Some i \<Rightarrow> i)"

text \<open>
  The \<open>try\<close> block of the processor: the transcript it returns, or the message of the error
  thrown, with the world at that moment. It reads the file without a \<open>stat\<close> and always
  calls \<open>transcribeAudio\<close>. When the store rejects the save of the transcribed document,
  that save throws and nothing is stored.
\<close>

definition process_try :: "env \<Rightarrow> job_data \<Rightarrow> world \<Rightarrow> (string + string) \<times> world" where
  "process_try env job w =
     (let entryId = job_entryId job in
      case findById w entryId of
        None \<Rightarrow> (Inl (''Log entry '' @ entryId @ '' not found''), w)
      | Some logEntry \<Rightarrow>
          (let index = job_index job in
           case nth_opt (audioRecordings logEntry) index of
             None \<Rightarrow>
               (Inl (''No audio recording found at index '' @ show_int index
                     @ '' for entry '' @ entryId), w)
           | Some recording \<Rightarrow>
               if url recording = []
               then (Inl (''No audio URL found for recording '' @ show_int index
                          @ '' in entry '' @ entryId), w)
               else
                 (let logEntry1 = update_recording logEntry index
                        (\<lambda>r. r\<lparr>transcriptionStatus := Processing\<rparr>);
                      w1 = save logEntry1 w;
                      audioPath = resolve env (url recording);
                      w2 = emit (FsReadFile audioPath) w1
                  in case files w2 audioPath of
                       None \<Rightarrow> (Inl (enoent ''open'' audioPath), w2)
                     | Some (Unreadable msg) \<Rightarrow> (Inl msg, w2)
                     | Some (Readable audioBuffer) \<Rightarrow>
                         (let w3 = emit (CallTranscribeAudio audioBuffer) w2
                          in case transcribeAudio env audioBuffer ''WEBM_OPUS'' 48000 ''en-US'' of
                               Inl msg \<Rightarrow> (Inl msg, w3)
                             | Inr t \<Rightarrow>
                                 (let logEntry2 = update_recording logEntry1 index
                                        (\<lambda>r. r\<lparr>transcript := Some t,
                                               transcriptionStatus := Completed,
                                               transcriptionTimestamp := Some (now env),
                                               transcriptionError := None\<rparr>)
                                  in case save_rejected env logEntry2 of
                                       Some msg \<Rightarrow> (Inl msg, w3)
                                     | None \<Rightarrow> (Inr t, save logEntry2 w3))))))"

text \<open>
  The \<open>catch\<close> block: it fetches the entry again, marks the recording failed when it is
  there, and throws the error again ("Re-throw for Bull to handle retries").
\<close>

definition process_catch :: "string \<Rightarrow> job_data \<Rightarrow> world \<Rightarrow> (string + string) \<times> world" where
  "process_catch msg job w =
     (case findById w (job_entryId job) of
        None \<Rightarrow> (Inl msg, w)
      | Some logEntry \<Rightarrow>
          (case nth_opt (audioRecordings logEntry) (job_index job) of
             None \<Rightarrow> (Inl msg, w)
           | Some _ \<Rightarrow>
               (Inl msg,
                save (update_recording logEntry (job_index job)
                        (\<lambda>r. r\<lparr>transcriptionStatus := Failed, transcriptionError := Some msg\<rparr>)) w)))"

definition process_job :: "env \<Rightarrow> job_data \<Rightarrow> world \<Rightarrow> (string + string) \<times> world" where
  "process_job env job w =
     (case process_try env job w of
        (Inr t, w') \<Rightarrow> (Inr t, w')
      | (Inl msg, w') \<Rightarrow> process_catch msg job w')"

text \<open>
  Modelled from the spec: the retry loop of the queue library (Bull), which the repository
  uses and does not contain. Section 4.3: an attempt that throws is tried again until
  \<open>attempts\<close> attempts have been made in total, then the job is failed for good.
  \<open>RetryScheduled n\<close> records that a retry was scheduled after \<open>n\<close> attempts; the
  delay of the retry is the library's business and is not modelled.
\<close>

fun run_attempts ::
  "env \<Rightarrow> job_data \<Rightarrow> nat \<Rightarrow> nat \<Rightarrow> world \<Rightarrow> (string + string) \<times> world" where
  "run_attempts env job made 0 w = process_job env job w"
| "run_attempts env job made (Suc left) w =
     (case process_job env job w of
        (Inr t, w') \<Rightarrow> (Inr t, w')
      | (Inl msg, w') \<Rightarrow> run_attempts env job (Suc made) left (emit (RetryScheduled (Suc made)) w'))"

definition run_job :: "env \<Rightarrow> job_options \<Rightarrow> job_data \<Rightarrow> world \<Rightarrow> (string + string) \<times> world" where
  "run_job env opts job w = run_attempts env job 0 (attempts opts - 1) w"

section \<open>routes/logTypes.js\<close>

text \<open>
  \<open>transcribeSynchronously\<close>: it works on the first recording, reads the file without a
  \<open>stat\<close>, always calls \<open>transcribeAudio\<close>, and swallows the error after recording it.
  When the store rejects the save of the transcribed document, the \<open>catch\<close> marks that
  same document failed and saves it.
\<close>

definition transcribeSynchronously_try ::
  "env \<Rightarrow> log_entry \<Rightarrow> world \<Rightarrow> (string + unit) \<times> log_entry \<times> world" where
  "transcribeSynchronously_try env logEntry w =
     (case audioRecordings logEntry of
        [] \<Rightarrow> (Inr (), logEntry, w)
      | recording # _ \<Rightarrow>
          (let audioPath = resolve env (url recording);
               w1 = emit (FsReadFile audioPath) w
           in case files w1 audioPath of
                None \<Rightarrow> (Inl (enoent ''open'' audioPath), logEntry, w1)
              | Some (Unreadable msg) \<Rightarrow> (Inl msg, logEntry, w1)
              | Some (Readable audioBuffer) \<Rightarrow>
                  (let w2 = emit (CallTranscribeAudio audioBuffer) w1
                   in case transcribeAudio env audioBuffer ''WEBM_OPUS'' 48000 ''en-US'' of
                        Inl msg \<Rightarrow> (Inl msg, logEntry, w2)
                      | Inr t \<Rightarrow>
                          (let logEntry' = update_recording logEntry 0
                                 (\<lambda>r. r\<lparr>transcript := Some t,
                                        transcriptionStatus := Completed,
                                        transcriptionTimestamp := Some (now env)\<rparr>)
                           in case save_rejected env logEntry' of
                                Some msg \<Rightarrow> (Inl msg, logEntry', w2)
                              | None \<Rightarrow> (Inr (), logEntry', save logEntry' w2)))))"

definition transcribeSynchronously :: "env \<Rightarrow> log_entry \<Rightarrow> world \<Rightarrow> log_entry \<times> world" where
  "transcribeSynchronously env logEntry w =
     (case transcribeSynchronously_try env logEntry w of
        (Inr _, logEntry', w') \<Rightarrow> (logEntry', w')
      | (Inl msg, logEntry', w') \<Rightarrow>
          (case audioRecordings logEntry' of
             [] \<Rightarrow> (logEntry', w')
           | _ # _ \<Rightarrow>
               (let logEntry'' = update_recording logEntry' 0
                      (\<lambda>r. r\<lparr>transcriptionStatus := Failed, transcriptionError := Some msg\<rparr>)
                in (logEntry'', save logEntry'' w'))))"

text \<open>
  \<open>originalname.replace(/[^a-zA-Z0-9.-]/g, "_")\<close>.
\<close>

definition sanitize :: "string \<Rightarrow> string" where
  "sanitize name =
     map (\<lambda>c. if c \<in> set ''abcdefghijklmnopqrstuvwxyzABCDEFGHIJKLMNOPQRSTUVWXYZ0123456789.-''
              then c else CHR ''_'') name"

text \<open>
  The dispatch of the create-entry handler, after the new entry has been saved: the queue
  when \<open>redisAvailable && transcriptionQueue\<close>, \<open>transcribeSynchronously\<close> otherwise and
  when \<open>add\<close> throws.
\<close>

definition dispatch :: "env \<Rightarrow> log_entry \<Rightarrow> world \<Rightarrow> log_entry \<times> world" where
  "dispatch env logEntry w =
     (case audioRecordings logEntry of
        [] \<Rightarrow> (logEntry, w)
      | first # _ \<Rightarrow>
          (case (if redisAvailable env then transcriptionQueue env else None) of
             Some add \<Rightarrow>
               (let job = \<lparr>job_entryId = entry_id logEntry, job_audioUrl = url first,
                           job_recordingIndex = Some 0\<rparr>;
                    w1 = emit (QueueAdd job defaultJobOptions) w
                in case add job defaultJobOptions of
                     None \<Rightarrow> (logEntry, w1)
                   | Some queueError \<Rightarrow> transcribeSynchronously env logEntry w1)
           | None \<Rightarrow> transcribeSynchronously env logEntry w))"

text \<open>
  \<open>POST /api/log-entries\<close> from the point where the audio file is handled; the parsing of
  the form fields and the look-up of the log type before it do not touch recordings. An
  entry without an audio file gets no recording and no dispatch.
\<close>

definition createEntry :: "env \<Rightarrow> string \<Rightarrow> uploaded_file option \<Rightarrow> world \<Rightarrow> response \<times> world" where
  "createEntry env user audioFile w =
     (case audioFile of
        None \<Rightarrow>
          (let logEntry = \<lparr>entry_id = new_entry_id env, userId = user, audioRecordings = []\<rparr>
           in (EntryCreated logEntry, save logEntry w))
      | Some f \<Rightarrow>
          (let fname = user @ ''_'' @ show_nat (now env) @ ''_'' @ sanitize (originalname f);
               audioPath = resolve env (''uploads/audio/'' @ fname);
               w1 = emit (FsWriteFile audioPath) w
           in case writeFile_error env audioPath of
                Some msg \<Rightarrow>
                  (ErrorResponse 500 ''Failed to create log entry'' (Some ''CREATE_ENTRY_ERROR'') (Some msg), w1)
              | None \<Rightarrow>
                  (let w2 = w1\<lparr>files := (files w1)(audioPath \<mapsto> Readable (buffer f))\<rparr>;
                       audioRecording = new_recording (''/uploads/audio/'' @ fname) (originalname f)
                         (length (buffer f)) None (now env) Processing;
                       logEntry = \<lparr>entry_id = new_entry_id env, userId = user,
                                   audioRecordings = [audioRecording]\<rparr>;
                       w3 = save logEntry w2;
                       (logEntry', w4) = dispatch env logEntry w3
                   in (EntryCreated logEntry', w4))))"

section \<open>Observations on the event list\<close>

text \<open>The documents saved, in order: what a reader of the store can see over time.\<close>

fun saved_entries :: "event list \<Rightarrow> log_entry list" where
  "saved_entries [] = []"
| "saved_entries (SaveEntry d # es) = d # saved_entries es"
| "saved_entries (_ # es) = saved_entries es"

text \<open>The calls of the two transcription functions, in order (\<open>True\<close> for the long form).\<close>

fun backend_calls :: "event list \<Rightarrow> (bool \<times> bytes) list" where
  "backend_calls [] = []"
| "backend_calls (CallTranscribeAudio b # es) = (False, b) # backend_calls es"
| "backend_calls (CallTranscribeLongAudio b # es) = (True, b) # backend_calls es"
| "backend_calls (_ # es) = backend_calls es"

text \<open>The events a handler added to those of the world it started in.\<close>

definition new_events :: "world \<Rightarrow> world \<Rightarrow> event list" where
  "new_events w w' = drop (length (events w)) (events w')"

text \<open>The jobs handed to the queue with their options, and the retries the queue scheduled.\<close>

fun queued_jobs :: "event list \<Rightarrow> (job_data \<times> job_options) list" where
  "queued_jobs [] = []"
| "queued_jobs (QueueAdd job opts # es) = (job, opts) # queued_jobs es"
| "queued_jobs (_ # es) = queued_jobs es"

fun retries :: "event list \<Rightarrow> nat list" where
  "retries [] = []"
| "retries (RetryScheduled n # es) = n # retries es"
| "retries (_ # es) = retries es"

fun file_reads :: "event list \<Rightarrow> string list" where
  "file_reads [] = []"
| "file_reads (FsReadFile p # es) = p # file_reads es"
| "file_reads (_ # es) = file_reads es"

text \<open>
  The events of transcription work: a job handed to the queue, and what a worker does to
  the file and to the backend. The events before the first of them are those before the
  dispatch began.
\<close>

fun transcription_work :: "event \<Rightarrow> bool" where
  "transcription_work (QueueAdd _ _) = True"
| "transcription_work (FsStat _) = True"
| "transcription_work (FsReadFile _) = True"
| "transcription_work (CallTranscribeAudio _) = True"
| "transcription_work (CallTranscribeLongAudio _) = True"
| "transcription_work (RetryScheduled _) = True"
| "transcription_work (SaveEntry _) = False"
| "transcription_work (FsWriteFile _) = False"
| "transcription_work (GenerateContent _) = False"

definition before_dispatch :: "event list \<Rightarrow> event list" where
  "before_dispatch evs = takeWhile (\<lambda>e. \<not> transcription_work e) evs"

definition after_dispatch :: "event list \<Rightarrow> event list" where
  "after_dispatch evs = dropWhile (\<lambda>e. \<not> transcription_work e) evs"

definition status_at :: "int \<Rightarrow> log_entry \<Rightarrow> transcription_status option" where
  "status_at i logEntry = map_option transcriptionStatus (nth_opt (audioRecordings logEntry) i)"

text \<open>
  The message of the error a worker gets from the file system for a stored file: of the
  system call that finds the file missing, or of \<open>readFile\<close> on an unreadable file.
\<close>

definition read_error :: "string \<Rightarrow> string \<Rightarrow> stored_file option \<Rightarrow> string option" where
  "read_error syscall p f =
     (case f of
        None \<Rightarrow> Some (enoent syscall p)
      | Some (Unreadable msg) \<Rightarrow> Some msg
      | Some (Readable _) \<Rightarrow> None)"

text \<open>
  When the dispatcher cannot use the queue for a job: \<open>redisAvailable && transcriptionQueue\<close>
  is false, or \<open>add\<close> throws on it.
\<close>

definition queue_unusable :: "env \<Rightarrow> job_data \<Rightarrow> bool" where
  "queue_unusable env job =
     (case (if redisAvailable env then transcriptionQueue env else None) of
        None \<Rightarrow> True
      | Some add \<Rightarrow> add job defaultJobOptions \<noteq> None)"

section \<open>Shorthand for the statements about \<open>ProcessTranscription\<close>\<close>

text \<open>
  The path \<open>ProcessTranscription\<close> reads for a recording, the transcription function it
  calls on the bytes read and the answer of that function, and the two updates of a
  recording that the \<open>try\<close> block and the \<open>catch\<close> block make.
\<close>

abbreviation audio_path :: "env \<Rightarrow> audio_recording \<Rightarrow> string" where
  "audio_path env a \<equiv> resolve env (strip_leading_slash (url a))"

abbreviation backend_call :: "bytes \<Rightarrow> event" where
  "backend_call b \<equiv>
     (if 1024 * 1024 < length b then CallTranscribeLongAudio b else CallTranscribeAudio b)"

abbreviation backend_answer :: "env \<Rightarrow> bytes \<Rightarrow> string + string" where
  "backend_answer env b \<equiv>
     (if 1024 * 1024 < length b
      then transcribeLongAudio env b ''WEBM_OPUS'' 48000 ''en-US''
      else transcribeAudio env b ''WEBM_OPUS'' 48000 ''en-US'')"

abbreviation mark_completed :: "env \<Rightarrow> string \<Rightarrow> audio_recording \<Rightarrow> audio_recording" where
  "mark_completed env t \<equiv>
     (\<lambda>r. r\<lparr>transcript := Some t, transcriptionStatus := Completed,
            transcriptionTimestamp := Some (now env)\<rparr>)"

abbreviation mark_failed :: "string \<Rightarrow> audio_recording \<Rightarrow> audio_recording" where
  "mark_failed msg \<equiv> (\<lambda>r. r\<lparr>transcriptionStatus := Failed, transcriptionError := Some msg\<rparr>)"

section \<open>Examples\<close>

text \<open>
  A small configuration on which the theorems are exercised: a speech client that
  recognises one sentence on either call, paths resolved under \<open>/app\<close> (leading slashes
  dropped, as \<open>path.join\<close> does), no queue.
\<close>

definition demo_client :: speech_client where
  "demo_client =
     \<lparr>recognize = (\<lambda>_. Inr [[''short text'']]),
      longRunningRecognize = (\<lambda>_. Inr [[''long text'']])\<rparr>"

definition demo_resolve :: "string \<Rightarrow> string" where
  "demo_resolve p = ''/app/'' @ dropWhile (\<lambda>c. c = CHR ''/'') p"

definition demo_env :: env where
  "demo_env =
     \<lparr>speechClient = Some demo_client, resolve = demo_resolve, now = 1000,
      generateContent = (\<lambda>p. Inr (''## Notes'' @ [CHR 0x0A] @ p)),
      transcriptionQueue = None, redisAvailable = False,
      writeFile_error = (\<lambda>_. None), new_entry_id = ''e2'',
      save_rejected = (\<lambda>_. None)\<rparr>"

definition demo_recording :: "transcription_status \<Rightarrow> audio_recording" where
  "demo_recording st = new_recording ''/uploads/audio/a.webm'' ''a.webm'' 3 None 500 st"

definition demo_entry :: "audio_recording \<Rightarrow> log_entry" where
  "demo_entry r = \<lparr>entry_id = ''e1'', userId = ''u1'', audioRecordings = [r]\<rparr>"

definition demo_world :: "audio_recording \<Rightarrow> (string \<Rightarrow> stored_file option) \<Rightarrow> world" where
  "demo_world r fs = \<lparr>store = [''e1'' \<mapsto> demo_entry r], files = fs, events = []\<rparr>"

definition demo_files :: "string \<Rightarrow> stored_file option" where
  "demo_files = [''/app/uploads/audio/a.webm'' \<mapsto> Readable [1, 2, 3]]"

text \<open>
  A client that recognises nothing (a silent recording: the results are empty), a
  recording that already has a transcript, and a job of the queue for the example entry.
\<close>

definition silent_client :: speech_client where
  "silent_client = \<lparr>recognize = (\<lambda>_. Inr []), longRunningRecognize = (\<lambda>_. Inr [])\<rparr>"

definition silent_env :: env where
  "silent_env = demo_env\<lparr>speechClient := Some silent_client\<rparr>"

definition demo_transcribed :: audio_recording where
  "demo_transcribed = (demo_recording Completed)\<lparr>transcript := Some ''old text''\<rparr>"

definition demo_job :: job_data where
  "demo_job =
     \<lparr>job_entryId = ''e1'', job_audioUrl = ''/uploads/audio/a.webm'', job_recordingIndex = Some 0\<rparr>"

text \<open>
  The example file with 1024 * 1024 + 1 bytes, and a recording whose last attempt failed.
\<close>

definition demo_large_files :: "string \<Rightarrow> stored_file option" where
  "demo_large_files = [''/app/uploads/audio/a.webm'' \<mapsto> Readable (replicate 1048577 0)]"

definition demo_failed :: audio_recording where
  "demo_failed = (demo_recording Failed)\<lparr>transcriptionError := Some ''quota exceeded''\<rparr>"

text \<open>
  An empty world, an uploaded file, and two configurations with a queue: one whose \<open>add\<close>
  accepts every job, one whose \<open>add\<close> throws for the jobs of the entry \<open>e2\<close> and accepts
  every other job.
\<close>

definition demo_empty_world :: world where
  "demo_empty_world = \<lparr>store = Map.empty, files = Map.empty, events = []\<rparr>"

definition demo_upload :: uploaded_file where
  "demo_upload = \<lparr>originalname = ''b(1).webm'', buffer = [7, 8]\<rparr>"

definition queue_env :: env where
  "queue_env = demo_env\<lparr>transcriptionQueue := Some (\<lambda>_ _. None), redisAvailable := True\<rparr>"

definition broken_queue_env :: env where
  "broken_queue_env =
     demo_env\<lparr>transcriptionQueue :=
                Some (\<lambda>job _. if job_entryId job = ''e2'' then Some ''connect ECONNREFUSED''
                               else None),
              redisAvailable := True\<rparr>"

text \<open>
  A speech client whose calls fail with an error that has an empty message, and a store that
  rejects the save of a document whose first recording is \<open>completed\<close>.
\<close>

definition mute_error_client :: speech_client where
  "mute_error_client = \<lparr>recognize = (\<lambda>_. Inl []), longRunningRecognize = (\<lambda>_. Inl [])\<rparr>"

definition mute_error_env :: env where
  "mute_error_env = demo_env\<lparr>speechClient := Some mute_error_client\<rparr>"

definition rejecting_env :: env where
  "rejecting_env =
     demo_env\<lparr>save_rejected :=
       (\<lambda>d. if status_at 0 d = Some Completed then Some ''connection lost'' else None)\<rparr>"

lemmas model_defs =
  requestTranscription_def findOne_def findById_def nth_opt_def update_recording_def
  ProcessTranscription_def ProcessTranscription_try_def ProcessTranscription_catch_def
  transcribe_response_def save_def emit_def transcribeAudio_def transcribeLongAudio_def
  transcription_of_def enoent_def recording_at_def getStatus_def improveTranscript_def
  improve_prompt_def upload_def new_recording_def process_job_def process_try_def
  process_catch_def job_index_def run_job_def defaultJobOptions_def
  transcribeSynchronously_def transcribeSynchronously_try_def dispatch_def createEntry_def
  AlreadyInProgress_def TranscriptRequired_def strip_leading_slash_def

lemmas demo_defs =
  demo_env_def demo_world_def demo_recording_def demo_entry_def demo_files_def
  demo_client_def demo_resolve_def silent_client_def silent_env_def demo_transcribed_def
  demo_job_def demo_large_files_def demo_failed_def demo_empty_world_def demo_upload_def
  queue_env_def broken_queue_env_def mute_error_client_def mute_error_env_def
  rejecting_env_def

section \<open>Basic facts\<close>

lemma saved_entries_append: "saved_entries (xs @ ys) = saved_entries xs @ saved_entries ys"
  by (induction xs rule: saved_entries.induct) simp_all

lemma backend_calls_append: "backend_calls (xs @ ys) = backend_calls xs @ backend_calls ys"
  by (induction xs rule: backend_calls.induct) simp_all

lemma queued_jobs_append: "queued_jobs (xs @ ys) = queued_jobs xs @ queued_jobs ys"
  by (induction xs rule: queued_jobs.induct) simp_all

lemma retries_append: "retries (xs @ ys) = retries xs @ retries ys"
  by (induction xs rule: retries.induct) simp_all

lemma new_events_append: "events w' = events w @ evs \<Longrightarrow> new_events w w' = evs"
  by (simp add: new_events_def)

lemma events_emit: "events (emit e w) = events w @ [e]"
  by (simp add: emit_def)

lemma store_emit: "store (emit e w) = store w"
  by (simp add: emit_def)

lemma files_emit: "files (emit e w) = files w"
  by (simp add: emit_def)

lemma events_save: "events (save d w) = events w @ [SaveEntry d]"
  by (simp add: save_def emit_def)

lemma store_save: "store (save d w) = (store w)(entry_id d \<mapsto> d)"
  by (simp add: save_def emit_def)

lemma files_save: "files (save d w) = files w"
  by (simp add: save_def emit_def)

lemma entry_id_update_recording: "entry_id (update_recording d i f) = entry_id d"
  by (simp add: update_recording_def)

lemma nth_opt_update_recording:
  "nth_opt (audioRecordings logEntry) i = Some a \<Longrightarrow>
   nth_opt (audioRecordings (update_recording logEntry i f)) i = Some (f a)"
  by (auto simp: nth_opt_def update_recording_def split: if_splits)

lemma findOne_SomeD:
  "findOne w entryId user = Some logEntry \<Longrightarrow>
   store w entryId = Some logEntry \<and> entry_id logEntry = entryId \<and> userId logEntry = user"
  by (auto simp: findOne_def split: option.splits if_splits)

subsection \<open>The five ways one run of \<open>ProcessTranscription\<close> can go\<close>

lemma ProcessTranscription_missing:
  assumes "nth_opt (audioRecordings d) i = Some a"
    and "files w (audio_path env a) = None"
  shows "ProcessTranscription env d i w =
           (Inl (enoent ''stat'' (audio_path env a)),
            update_recording d i (mark_failed (enoent ''stat'' (audio_path env a))),
            save (update_recording d i (mark_failed (enoent ''stat'' (audio_path env a))))
              (emit (FsStat (audio_path env a)) w))"
  using assms
  by (simp add: ProcessTranscription_def ProcessTranscription_try_def
      ProcessTranscription_catch_def Let_def files_emit)

lemma ProcessTranscription_unreadable_file:
  assumes "nth_opt (audioRecordings d) i = Some a"
    and "files w (audio_path env a) = Some (Unreadable m)"
  shows "ProcessTranscription env d i w =
           (Inl m, update_recording d i (mark_failed m),
            save (update_recording d i (mark_failed m))
              (emit (FsReadFile (audio_path env a)) (emit (FsStat (audio_path env a)) w)))"
  using assms
  by (simp add: ProcessTranscription_def ProcessTranscription_try_def
      ProcessTranscription_catch_def Let_def files_emit)

lemma ProcessTranscription_backend_error:
  assumes "nth_opt (audioRecordings d) i = Some a"
    and "files w (audio_path env a) = Some (Readable b)"
    and "backend_answer env b = Inl m"
  shows "ProcessTranscription env d i w =
           (Inl m, update_recording d i (mark_failed m),
            save (update_recording d i (mark_failed m))
              (emit (backend_call b)
                (emit (FsReadFile (audio_path env a)) (emit (FsStat (audio_path env a)) w))))"
  using assms
  by (auto simp: ProcessTranscription_def ProcessTranscription_try_def
      ProcessTranscription_catch_def Let_def files_emit split: if_splits)

lemma ProcessTranscription_save_rejected:
  assumes "nth_opt (audioRecordings d) i = Some a"
    and "files w (audio_path env a) = Some (Readable b)"
    and "backend_answer env b = Inr t"
    and "save_rejected env (update_recording d i (mark_completed env t)) = Some m"
  shows "ProcessTranscription env d i w =
           (Inl m,
            update_recording (update_recording d i (mark_completed env t)) i (mark_failed m),
            save (update_recording (update_recording d i (mark_completed env t)) i (mark_failed m))
              (emit (backend_call b)
                (emit (FsReadFile (audio_path env a)) (emit (FsStat (audio_path env a)) w))))"
proof -
  have n': "nth_opt (audioRecordings (update_recording d i (mark_completed env t))) i
              = Some (mark_completed env t a)"
    using nth_opt_update_recording [OF assms(1)] by simp
  show ?thesis
    using assms n'
    by (auto simp: ProcessTranscription_def ProcessTranscription_try_def
        ProcessTranscription_catch_def Let_def files_emit split: if_splits)
qed

lemma ProcessTranscription_success:
  assumes "nth_opt (audioRecordings d) i = Some a"
    and "files w (audio_path env a) = Some (Readable b)"
    and "backend_answer env b = Inr t"
    and "save_rejected env (update_recording d i (mark_completed env t)) = None"
  shows "ProcessTranscription env d i w =
           (Inr t, update_recording d i (mark_completed env t),
            save (update_recording d i (mark_completed env t))
              (emit (backend_call b)
                (emit (FsReadFile (audio_path env a)) (emit (FsStat (audio_path env a)) w))))"
  using assms
  by (auto simp: ProcessTranscription_def ProcessTranscription_try_def
      ProcessTranscription_catch_def Let_def files_emit split: if_splits)

text \<open>One of the five happens, and which one is decided by the file, the backend and the store.\<close>

lemma ProcessTranscription_cases:
  assumes n: "nth_opt (audioRecordings d) i = Some a"
  shows "(files w (audio_path env a) = None
          \<and> ProcessTranscription env d i w =
               (Inl (enoent ''stat'' (audio_path env a)),
                update_recording d i (mark_failed (enoent ''stat'' (audio_path env a))),
                save (update_recording d i (mark_failed (enoent ''stat'' (audio_path env a))))
                  (emit (FsStat (audio_path env a)) w)))
       \<or> (\<exists>m. files w (audio_path env a) = Some (Unreadable m)
          \<and> ProcessTranscription env d i w =
               (Inl m, update_recording d i (mark_failed m),
                save (update_recording d i (mark_failed m))
                  (emit (FsReadFile (audio_path env a)) (emit (FsStat (audio_path env a)) w))))
       \<or> (\<exists>b m. files w (audio_path env a) = Some (Readable b) \<and> backend_answer env b = Inl m
          \<and> ProcessTranscription env d i w =
               (Inl m, update_recording d i (mark_failed m),
                save (update_recording d i (mark_failed m))
                  (emit (backend_call b)
                    (emit (FsReadFile (audio_path env a)) (emit (FsStat (audio_path env a)) w)))))
       \<or> (\<exists>b t m. files w (audio_path env a) = Some (Readable b) \<and> backend_answer env b = Inr t
          \<and> save_rejected env (update_recording d i (mark_completed env t)) = Some m
          \<and> ProcessTranscription env d i w =
               (Inl m,
                update_recording (update_recording d i (mark_completed env t)) i (mark_failed m),
                save (update_recording (update_recording d i (mark_completed env t)) i
                        (mark_failed m))
                  (emit (backend_call b)
                    (emit (FsReadFile (audio_path env a)) (emit (FsStat (audio_path env a)) w)))))
       \<or> (\<exists>b t. files w (audio_path env a) = Some (Readable b) \<and> backend_answer env b = Inr t
          \<and> save_rejected env (update_recording d i (mark_completed env t)) = None
          \<and> ProcessTranscription env d i w =
               (Inr t, update_recording d i (mark_completed env t),
                save (update_recording d i (mark_completed env t))
                  (emit (backend_call b)
                    (emit (FsReadFile (audio_path env a)) (emit (FsStat (audio_path env a)) w)))))"
proof (cases "files w (audio_path env a)")
  case None
  with ProcessTranscription_missing [OF n] show ?thesis by blast
next
  case (Some f)
  show ?thesis
  proof (cases f)
    case (Unreadable m)
    with Some ProcessTranscription_unreadable_file [OF n] show ?thesis by blast
  next
    case (Readable b)
    with Some have fb: "files w (audio_path env a) = Some (Readable b)" by simp
    show ?thesis
    proof (cases "backend_answer env b")
      case (Inl m)
      with ProcessTranscription_backend_error [OF n fb] fb show ?thesis by blast
    next
      case (Inr t)
      show ?thesis
      proof (cases "save_rejected env (update_recording d i (mark_completed env t))")
        case None
        with ProcessTranscription_success [OF n fb Inr] fb Inr show ?thesis by blast
      next
        case (Some m)
        with ProcessTranscription_save_rejected [OF n fb Inr] fb Inr show ?thesis by blast
      qed
    qed
  qed
qed

subsection \<open>What one run of \<open>ProcessTranscription\<close> leaves behind\<close>

lemma status_at_update_recording:
  "nth_opt (audioRecordings d) i = Some a \<Longrightarrow>
   status_at i (update_recording d i f) = Some (transcriptionStatus (f a))"
  by (simp add: status_at_def nth_opt_update_recording)

lemma ProcessTranscription_events:
  assumes n: "nth_opt (audioRecordings d) i = Some a"
    and pt: "ProcessTranscription env d i w = (r, d', w')"
  shows "\<exists>evs. events w' = events w @ FsStat (audio_path env a) # evs @ [SaveEntry d']
           \<and> (evs = [] \<or> evs = [FsReadFile (audio_path env a)]
              \<or> (\<exists>b. files w (audio_path env a) = Some (Readable b)
                     \<and> evs = [FsReadFile (audio_path env a), backend_call b]))"
  using ProcessTranscription_cases [OF n, of w env]
proof (elim disjE exE conjE)
  assume "ProcessTranscription env d i w =
           (Inl (enoent ''stat'' (audio_path env a)),
            update_recording d i (mark_failed (enoent ''stat'' (audio_path env a))),
            save (update_recording d i (mark_failed (enoent ''stat'' (audio_path env a))))
              (emit (FsStat (audio_path env a)) w))"
  with pt show ?thesis
    by (intro exI [of _ "[]"]) (auto simp: events_save events_emit)
next
  fix m
  assume "ProcessTranscription env d i w =
           (Inl m, update_recording d i (mark_failed m),
            save (update_recording d i (mark_failed m))
              (emit (FsReadFile (audio_path env a)) (emit (FsStat (audio_path env a)) w)))"
  with pt show ?thesis
    by (intro exI [of _ "[FsReadFile (audio_path env a)]"]) (auto simp: events_save events_emit)
next
  fix b m
  assume "files w (audio_path env a) = Some (Readable b)"
    and "ProcessTranscription env d i w =
           (Inl m, update_recording d i (mark_failed m),
            save (update_recording d i (mark_failed m))
              (emit (backend_call b)
                (emit (FsReadFile (audio_path env a)) (emit (FsStat (audio_path env a)) w))))"
  with pt show ?thesis
    by (intro exI [of _ "[FsReadFile (audio_path env a), backend_call b]"])
       (auto simp: events_save events_emit)
next
  fix b t m
  assume "files w (audio_path env a) = Some (Readable b)"
    and "ProcessTranscription env d i w =
           (Inl m,
            update_recording (update_recording d i (mark_completed env t)) i (mark_failed m),
            save (update_recording (update_recording d i (mark_completed env t)) i (mark_failed m))
              (emit (backend_call b)
                (emit (FsReadFile (audio_path env a)) (emit (FsStat (audio_path env a)) w))))"
  with pt show ?thesis
    by (intro exI [of _ "[FsReadFile (audio_path env a), backend_call b]"])
       (auto simp: events_save events_emit)
next
  fix b t
  assume "files w (audio_path env a) = Some (Readable b)"
    and "ProcessTranscription env d i w =
           (Inr t, update_recording d i (mark_completed env t),
            save (update_recording d i (mark_completed env t))
              (emit (backend_call b)
                (emit (FsReadFile (audio_path env a)) (emit (FsStat (audio_path env a)) w))))"
  with pt show ?thesis
    by (intro exI [of _ "[FsReadFile (audio_path env a), backend_call b]"])
       (auto simp: events_save events_emit)
qed

lemma ProcessTranscription_store:
  assumes n: "nth_opt (audioRecordings d) i = Some a"
    and pt: "ProcessTranscription env d i w = (r, d', w')"
  shows "store w' = (store w)(entry_id d \<mapsto> d') \<and> files w' = files w
         \<and> entry_id d' = entry_id d
         \<and> status_at i d' \<in> {Some Completed, Some Failed}"
proof -
  have nc: "\<And>t. nth_opt (audioRecordings (update_recording d i (mark_completed env t))) i
              = Some (mark_completed env t a)"
    using nth_opt_update_recording [OF n] by simp
  from ProcessTranscription_cases [OF n, of w env] pt show ?thesis
    by (elim disjE exE conjE)
       (auto simp: store_save store_emit files_save files_emit entry_id_update_recording
          status_at_update_recording [OF n] status_at_update_recording [OF nc])
qed

lemma ProcessTranscription_shape:
  assumes n: "nth_opt (audioRecordings d) i = Some a"
    and pt: "ProcessTranscription env d i w = (r, d', w')"
  shows "store w' = (store w)(entry_id d \<mapsto> d')
         \<and> status_at i d' \<in> {Some Completed, Some Failed}
         \<and> (\<exists>evs. events w' = events w @ FsStat (audio_path env a) # evs @ [SaveEntry d']
                \<and> saved_entries evs = [] \<and> queued_jobs evs = [] \<and> retries evs = [])"
proof -
  from ProcessTranscription_events [OF n pt] obtain evs where
    ev: "events w' = events w @ FsStat (audio_path env a) # evs @ [SaveEntry d']"
    and c: "evs = [] \<or> evs = [FsReadFile (audio_path env a)]
              \<or> (\<exists>b. files w (audio_path env a) = Some (Readable b)
                     \<and> evs = [FsReadFile (audio_path env a), backend_call b])"
    by blast
  from c have "saved_entries evs = [] \<and> queued_jobs evs = [] \<and> retries evs = []"
    by auto
  with ev ProcessTranscription_store [OF n pt] show ?thesis by blast
qed

subsection \<open>The example entry\<close>

lemma demo_findOne:
  "findOne (demo_world r fs) ''e1'' ''u1'' = Some (demo_entry r)"
  by (simp add: findOne_def demo_world_def demo_entry_def)

lemma demo_findById:
  "findById (demo_world r fs) ''e1'' = Some (demo_entry r)"
  by (simp add: findById_def demo_world_def demo_entry_def)

lemma demo_nth_opt: "nth_opt (audioRecordings (demo_entry r)) 0 = Some r"
  by (simp add: nth_opt_def demo_entry_def)


lemma findById_SomeD:
  "findById w entryId = Some logEntry \<Longrightarrow> store w entryId = Some logEntry \<and> entry_id logEntry = entryId"
  by (auto simp: findById_def split: option.splits if_splits)

lemma findById_save:
  "entry_id d = entryId \<Longrightarrow> findById (save d w) entryId = Some d"
  by (simp add: findById_def store_save)

lemma findById_emit: "findById (emit e w) entryId = findById w entryId"
  by (simp add: findById_def store_emit)

subsection \<open>What one run of the queue's processor leaves behind\<close>

lemma process_try_Inl:
  assumes "process_try env job w = (Inl msg, w')"
    and "findById w (job_entryId job) = Some e"
    and "nth_opt (audioRecordings e) (job_index job) = Some a"
  shows "findById w' (job_entryId job) = Some e
       \<or> findById w' (job_entryId job)
           = Some (update_recording e (job_index job) (\<lambda>r. r\<lparr>transcriptionStatus := Processing\<rparr>))"
  using assms findById_SomeD [OF assms(2)]
  by (auto simp: process_try_def Let_def findById_emit findById_save entry_id_update_recording
      split: option.splits stored_file.splits sum.splits if_splits)

lemma process_try_Inr:
  assumes "process_try env job w = (Inr t, w')"
  shows "\<exists>e a. findById w (job_entryId job) = Some e
          \<and> nth_opt (audioRecordings e) (job_index job) = Some a
          \<and> store w' = (store w)(job_entryId job \<mapsto>
                update_recording e (job_index job)
                  (\<lambda>r. r\<lparr>transcript := Some t, transcriptionStatus := Completed,
                          transcriptionTimestamp := Some (now env), transcriptionError := None\<rparr>))"
  using assms
  apply (auto simp: process_try_def Let_def store_emit store_save entry_id_update_recording
      split: option.splits stored_file.splits sum.splits if_splits dest!: findById_SomeD)
  apply (auto simp: update_recording_def nth_opt_def split: if_splits)
  done

lemma process_job_Inl:
  assumes "process_job env job w = (Inl msg, w')"
    and "findById w (job_entryId job) = Some e"
    and "nth_opt (audioRecordings e) (job_index job) = Some a"
  shows "recording_at w' (job_entryId job) (job_index job)
           = Some (a\<lparr>transcriptionStatus := Failed, transcriptionError := Some msg\<rparr>)"
proof -
  obtain r w1 where t: "process_try env job w = (r, w1)"
    by (cases "process_try env job w") auto
  show ?thesis
  proof (cases r)
    case (Inr x)
    with assms t show ?thesis by (simp add: process_job_def)
  next
    case (Inl m)
    with assms(1) t have c: "process_catch msg job w1 = (Inl msg, w')" and m: "m = msg"
      by (auto simp: process_job_def process_catch_def split: option.splits)
    have id: "entry_id e = job_entryId job" using findById_SomeD [OF assms(2)] by simp
    from process_try_Inl [OF t [unfolded Inl] assms(2,3)]
    show ?thesis
    proof
      assume "findById w1 (job_entryId job) = Some e"
      with c assms(3) id nth_opt_update_recording [OF assms(3)] show ?thesis
        by (auto simp: process_catch_def recording_at_def store_save entry_id_update_recording)
    next
      let ?e1 = "update_recording e (job_index job) (\<lambda>r. r\<lparr>transcriptionStatus := Processing\<rparr>)"
      assume f1: "findById w1 (job_entryId job) = Some ?e1"
      have n1: "nth_opt (audioRecordings ?e1) (job_index job) = Some (a\<lparr>transcriptionStatus := Processing\<rparr>)"
        using nth_opt_update_recording [OF assms(3)] by simp
      from c f1 n1 id nth_opt_update_recording [OF n1] show ?thesis
        by (auto simp: process_catch_def recording_at_def store_save entry_id_update_recording)
    qed
  qed
qed

subsection \<open>What \<open>transcribeSynchronously\<close> and the dispatcher leave behind\<close>

lemma transcribeSynchronously_outcome:
  assumes "transcribeSynchronously env e w = (e', w')"
    and "audioRecordings e = r # rs"
  shows "store w' = (store w)(entry_id e \<mapsto> e') \<and> entry_id e' = entry_id e
         \<and> status_at 0 e' \<in> {Some Completed, Some Failed}
         \<and> (\<exists>evs. events w' = events w @ FsReadFile (resolve env (url r)) # evs @ [SaveEntry e']
                \<and> saved_entries evs = [] \<and> queued_jobs evs = [])"
  using assms
  by (auto simp: transcribeSynchronously_def transcribeSynchronously_try_def Let_def
      events_emit store_emit events_save store_save update_recording_def status_at_def nth_opt_def
      split: option.splits stored_file.splits sum.splits if_splits list.splits)

lemma dispatch_outcome:
  assumes "dispatch env e w = (e', w')"
    and "audioRecordings e = r # rs"
  shows "(\<exists>evs. events w' = events w @ evs \<and>
           (queued_jobs evs = []
            \<or> queued_jobs evs = [(\<lparr>job_entryId = entry_id e, job_audioUrl = url r,
                                   job_recordingIndex = Some 0\<rparr>, defaultJobOptions)]))"
proof -
  have ts: "\<And>w0 e1 w1. transcribeSynchronously env e w0 = (e1, w1) \<Longrightarrow>
              \<exists>evs. events w1 = events w0 @ evs \<and> queued_jobs evs = []"
  proof -
    fix w0 e1 w1 assume "transcribeSynchronously env e w0 = (e1, w1)"
    from transcribeSynchronously_outcome [OF this assms(2)]
    obtain evs where "events w1 = events w0 @ FsReadFile (resolve env (url r)) # evs @ [SaveEntry e1]"
      "queued_jobs evs = []" by blast
    then show "\<exists>evs. events w1 = events w0 @ evs \<and> queued_jobs evs = []"
      by (intro exI [of _ "FsReadFile (resolve env (url r)) # evs @ [SaveEntry e1]"])
         (simp add: queued_jobs_append)
  qed
  show ?thesis
  proof (cases "if redisAvailable env then transcriptionQueue env else None")
    case None
    with assms have "transcribeSynchronously env e w = (e', w')"
      by (auto simp: dispatch_def)
    from ts [OF this] show ?thesis by blast
  next
    case (Some add)
    let ?job = "\<lparr>job_entryId = entry_id e, job_audioUrl = url r, job_recordingIndex = Some 0\<rparr>"
    let ?w1 = "emit (QueueAdd ?job defaultJobOptions) w"
    show ?thesis
    proof (cases "add ?job defaultJobOptions")
      case None
      with assms Some have "w' = ?w1" by (auto simp: dispatch_def Let_def)
      then have "events w' = events w @ [QueueAdd ?job defaultJobOptions]" by (simp add: events_emit)
      then show ?thesis by (intro exI [of _ "[QueueAdd ?job defaultJobOptions]"]) simp
    next
      case (Some err)
      with assms \<open>(if redisAvailable env then transcriptionQueue env else None) = Some add\<close>
      have "transcribeSynchronously env e ?w1 = (e', w')" by (auto simp: dispatch_def Let_def)
      from ts [OF this] obtain evs where "events w' = events ?w1 @ evs" "queued_jobs evs = []" by blast
      then show ?thesis
        by (intro exI [of _ "QueueAdd ?job defaultJobOptions # evs"]) (simp add: events_emit)
    qed
  qed
qed

lemma createEntry_queued_jobs:
  assumes "createEntry env user audioFile w = (resp, w')"
  shows "\<exists>evs. events w' = events w @ evs
           \<and> (queued_jobs evs = [] \<or> (\<exists>job. queued_jobs evs = [(job, defaultJobOptions)]))"
proof (cases audioFile)
  case None
  with assms have "events w' = events w @ [SaveEntry \<lparr>entry_id = new_entry_id env, userId = user, audioRecordings = []\<rparr>]"
    by (auto simp: createEntry_def Let_def events_save)
  then show ?thesis
    by (intro exI [of _ "[SaveEntry \<lparr>entry_id = new_entry_id env, userId = user, audioRecordings = []\<rparr>]"])
       simp
next
  case (Some f)
  define p where "p = resolve env (''uploads/audio/'' @ user @ ''_'' @ show_nat (now env) @ ''_''
                        @ sanitize (originalname f))"
  show ?thesis
  proof (cases "writeFile_error env p")
    case (Some msg)
    with assms \<open>audioFile = Some f\<close> have "events w' = events w @ [FsWriteFile p]"
      by (auto simp: createEntry_def Let_def events_emit p_def)
    then show ?thesis by (intro exI [of _ "[FsWriteFile p]"]) simp
  next
    case None
    define r where "r = new_recording
        (''/uploads/audio/'' @ user @ ''_'' @ show_nat (now env) @ ''_'' @ sanitize (originalname f))
        (originalname f) (length (buffer f)) None (now env) Processing"
    define e where "e = \<lparr>entry_id = new_entry_id env, userId = user, audioRecordings = [r]\<rparr>"
    define w3 where "w3 = save e ((emit (FsWriteFile p) w)
                            \<lparr>files := (files (emit (FsWriteFile p) w))(p \<mapsto> Readable (buffer f))\<rparr>)"
    have ev3: "events w3 = events w @ [FsWriteFile p, SaveEntry e]"
      by (simp add: w3_def events_save events_emit)
    from assms \<open>audioFile = Some f\<close> None obtain e' where d: "dispatch env e w3 = (e', w')"
      by (auto simp: createEntry_def Let_def p_def r_def e_def w3_def split: prod.splits)
    have "audioRecordings e = r # []" by (simp add: e_def)
    from dispatch_outcome [OF d this] obtain evs where
      evs: "events w' = events w3 @ evs"
           "queued_jobs evs = [] \<or> queued_jobs evs
              = [(\<lparr>job_entryId = entry_id e, job_audioUrl = url r, job_recordingIndex = Some 0\<rparr>,
                  defaultJobOptions)]"
      by blast
    have "events w' = events w @ ([FsWriteFile p, SaveEntry e] @ evs)"
      using evs(1) ev3 by simp
    moreover have "queued_jobs ([FsWriteFile p, SaveEntry e] @ evs) = queued_jobs evs"
      by simp
    ultimately show ?thesis using evs(2)
      by (intro exI [of _ "[FsWriteFile p, SaveEntry e] @ evs"]) auto
  qed
qed

subsection \<open>A file that cannot be read\<close>

lemma file_reads_append: "file_reads (xs @ ys) = file_reads xs @ file_reads ys"
  by (induction xs rule: file_reads.induct) simp_all

lemma extends_iff:
  "(\<exists>evs. events w' = events w @ evs) \<longleftrightarrow> events w' = events w @ new_events w w'"
  by (auto simp: new_events_def)

lemma process_job_extends: "\<exists>evs. events (snd (process_job env job w)) = events w @ evs"
  unfolding extends_iff
  by (auto simp: process_job_def process_try_def process_catch_def Let_def new_events_def
      events_emit events_save findById_def store_emit store_save
      split: option.splits stored_file.splits sum.splits if_splits)

lemma run_attempts_extends:
  "\<exists>evs. events (snd (run_attempts env job made left w)) = events w @ evs"
proof (induction left arbitrary: made w)
  case 0
  show ?case using process_job_extends by simp
next
  case (Suc left)
  obtain r w1 where p: "process_job env job w = (r, w1)"
    by (cases "process_job env job w") auto
  from process_job_extends [of env job w] p obtain evs1 where e1: "events w1 = events w @ evs1"
    by auto
  show ?case
  proof (cases r)
    case (Inr t)
    with p e1 show ?thesis by simp
  next
    case (Inl msg)
    from Suc.IH [of "Suc made" "emit (RetryScheduled (Suc made)) w1"] obtain evs2 where
      "events (snd (run_attempts env job (Suc made) left (emit (RetryScheduled (Suc made)) w1)))
         = events (emit (RetryScheduled (Suc made)) w1) @ evs2" by blast
    with p Inl e1 show ?thesis by (simp add: events_emit)
  qed
qed

lemma ProcessTranscription_unreadable:
  assumes n: "nth_opt (audioRecordings d) i = Some a"
    and re: "read_error ''stat'' (audio_path env a) (files w (audio_path env a)) = Some msg"
  shows "\<exists>d' w'. ProcessTranscription env d i w = (Inl msg, d', w')
           \<and> recording_at w' (entry_id d) i = Some (mark_failed msg a)
           \<and> backend_calls (new_events w w') = [] \<and> retries (new_events w w') = []"
proof -
  let ?d' = "update_recording d i (mark_failed msg)"
  have n': "nth_opt (audioRecordings ?d') i = Some (mark_failed msg a)"
    using nth_opt_update_recording [OF n] by simp
  have r: "\<And>w1. recording_at (save ?d' w1) (entry_id d) i = Some (mark_failed msg a)"
    using n' by (simp add: recording_at_def store_save entry_id_update_recording)
  show ?thesis
  proof (cases "files w (audio_path env a)")
    case None
    with re have m: "msg = enoent ''stat'' (audio_path env a)" by (simp add: read_error_def)
    from ProcessTranscription_missing [OF n None]
    have pt: "ProcessTranscription env d i w
                = (Inl msg, ?d', save ?d' (emit (FsStat (audio_path env a)) w))"
      unfolding m by simp
    have "backend_calls (new_events w (save ?d' (emit (FsStat (audio_path env a)) w))) = []"
      "retries (new_events w (save ?d' (emit (FsStat (audio_path env a)) w))) = []"
      by (simp_all add: new_events_def events_save events_emit)
    with pt r show ?thesis by blast
  next
    case (Some f)
    with re obtain m where f: "f = Unreadable m" and m: "m = msg"
      by (cases f) (auto simp: read_error_def)
    let ?w1 = "emit (FsReadFile (audio_path env a)) (emit (FsStat (audio_path env a)) w)"
    from ProcessTranscription_unreadable_file [OF n, of w env msg] Some f m
    have pt: "ProcessTranscription env d i w = (Inl msg, ?d', save ?d' ?w1)" by simp
    have "backend_calls (new_events w (save ?d' ?w1)) = []"
      "retries (new_events w (save ?d' ?w1)) = []"
      by (simp_all add: new_events_def events_save events_emit)
    with pt r show ?thesis by blast
  qed
qed

lemma process_job_unreadable:
  assumes "findById w (job_entryId job) = Some e"
    and "nth_opt (audioRecordings e) (job_index job) = Some a"
    and "url a \<noteq> []"
    and "read_error ''open'' (resolve env (url a)) (files w (resolve env (url a))) = Some msg"
  shows "\<exists>w'. process_job env job w = (Inl msg, w')
           \<and> recording_at w' (job_entryId job) (job_index job)
               = Some (a\<lparr>transcriptionStatus := Failed, transcriptionError := Some msg\<rparr>)
           \<and> backend_calls (new_events w w') = []"
proof -
  let ?e1 = "update_recording e (job_index job) (\<lambda>r. r\<lparr>transcriptionStatus := Processing\<rparr>)"
  let ?w2 = "emit (FsReadFile (resolve env (url a))) (save ?e1 w)"
  have id: "entry_id e = job_entryId job" using findById_SomeD [OF assms(1)] by simp
  have t: "process_try env job w = (Inl msg, ?w2)"
    using assms
    by (auto simp: process_try_def Let_def read_error_def files_emit files_save
        split: option.splits stored_file.splits)
  have f2: "findById ?w2 (job_entryId job) = Some ?e1"
    using id by (simp add: findById_emit findById_save entry_id_update_recording)
  have n1: "nth_opt (audioRecordings ?e1) (job_index job)
              = Some (a\<lparr>transcriptionStatus := Processing\<rparr>)"
    using nth_opt_update_recording [OF assms(2)] by simp
  let ?e2 = "update_recording ?e1 (job_index job)
               (\<lambda>r. r\<lparr>transcriptionStatus := Failed, transcriptionError := Some msg\<rparr>)"
  have j: "process_job env job w = (Inl msg, save ?e2 ?w2)"
    using t f2 n1 by (simp add: process_job_def process_catch_def)
  have n2: "nth_opt (audioRecordings ?e2) (job_index job)
              = Some (a\<lparr>transcriptionStatus := Failed, transcriptionError := Some msg\<rparr>)"
    using nth_opt_update_recording [OF n1] by simp
  have "recording_at (save ?e2 ?w2) (job_entryId job) (job_index job)
          = Some (a\<lparr>transcriptionStatus := Failed, transcriptionError := Some msg\<rparr>)"
    using n2 id by (simp add: recording_at_def store_save entry_id_update_recording)
  moreover have "backend_calls (new_events w (save ?e2 ?w2)) = []"
    by (simp add: new_events_def events_save events_emit)
  ultimately show ?thesis using j by blast
qed

lemma process_job_unreadable_step:
  assumes f: "findById w (job_entryId job) = Some e"
    and n: "nth_opt (audioRecordings e) (job_index job) = Some a"
    and u: "url a \<noteq> []"
    and re: "read_error ''open'' (resolve env (url a)) (files w (resolve env (url a))) = Some msg"
  shows "\<exists>w' e' s. process_job env job w = (Inl msg, w')
           \<and> findById w' (job_entryId job) = Some e'
           \<and> nth_opt (audioRecordings e') (job_index job) = Some (mark_failed msg a)
           \<and> files w' = files w
           \<and> events w' = events w @ [SaveEntry s, FsReadFile (resolve env (url a)), SaveEntry e']"
proof -
  let ?e1 = "update_recording e (job_index job) (\<lambda>r. r\<lparr>transcriptionStatus := Processing\<rparr>)"
  let ?w2 = "emit (FsReadFile (resolve env (url a))) (save ?e1 w)"
  have id: "entry_id e = job_entryId job" using findById_SomeD [OF f] by simp
  have t: "process_try env job w = (Inl msg, ?w2)"
    using f n u re
    by (auto simp: process_try_def Let_def read_error_def files_emit files_save
        split: option.splits stored_file.splits)
  have f2: "findById ?w2 (job_entryId job) = Some ?e1"
    using id by (simp add: findById_emit findById_save entry_id_update_recording)
  have n1: "nth_opt (audioRecordings ?e1) (job_index job)
              = Some (a\<lparr>transcriptionStatus := Processing\<rparr>)"
    using nth_opt_update_recording [OF n] by simp
  let ?e2 = "update_recording ?e1 (job_index job) (mark_failed msg)"
  have j: "process_job env job w = (Inl msg, save ?e2 ?w2)"
    using t f2 n1 by (simp add: process_job_def process_catch_def)
  have n2: "nth_opt (audioRecordings ?e2) (job_index job) = Some (mark_failed msg a)"
    using nth_opt_update_recording [OF n1] by simp
  have "findById (save ?e2 ?w2) (job_entryId job) = Some ?e2"
    using id by (simp add: findById_save entry_id_update_recording)
  moreover have "files (save ?e2 ?w2) = files w"
    by (simp add: files_save files_emit)
  moreover have "events (save ?e2 ?w2)
                   = events w @ [SaveEntry ?e1, FsReadFile (resolve env (url a)), SaveEntry ?e2]"
    by (simp add: events_save events_emit)
  ultimately show ?thesis using j n2 by blast
qed

text \<open>
  As long as the file stays as it is, every attempt of the queue on the job ends the same
  way: with \<open>left\<close> retries allowed after \<open>made\<close> attempts, the queue makes
  \<open>left + 1\<close> attempts, each reading the file once, and schedules \<open>left\<close> retries.
\<close>

lemma run_attempts_unreadable:
  assumes "findById w (job_entryId job) = Some e"
    and "nth_opt (audioRecordings e) (job_index job) = Some a"
    and "url a = u" and "u \<noteq> []"
    and "read_error ''open'' (resolve env u) (files w (resolve env u)) = Some msg"
  shows "\<exists>w'. run_attempts env job made left w = (Inl msg, w')
           \<and> retries (new_events w w') = map Suc [made..<made + left]
           \<and> file_reads (new_events w w') = replicate (Suc left) (resolve env u)
           \<and> backend_calls (new_events w w') = []"
  using assms
proof (induction left arbitrary: made w e a)
  case 0
  from process_job_unreadable_step [of w job e a env msg] "0.prems"
  obtain w' e' s where j: "process_job env job w = (Inl msg, w')"
    and ev: "events w' = events w @ [SaveEntry s, FsReadFile (resolve env u), SaveEntry e']"
    by auto
  from ev have "new_events w w' = [SaveEntry s, FsReadFile (resolve env u), SaveEntry e']"
    by (rule new_events_append)
  with j show ?case by simp
next
  case (Suc left)
  from process_job_unreadable_step [of w job e a env msg] Suc.prems
  obtain w1 e1 s where j: "process_job env job w = (Inl msg, w1)"
    and f1: "findById w1 (job_entryId job) = Some e1"
    and n1: "nth_opt (audioRecordings e1) (job_index job) = Some (mark_failed msg a)"
    and fl: "files w1 = files w"
    and ev1: "events w1 = events w @ [SaveEntry s, FsReadFile (resolve env u), SaveEntry e1]"
    by auto
  let ?w2 = "emit (RetryScheduled (Suc made)) w1"
  have f2: "findById ?w2 (job_entryId job) = Some e1" using f1 by (simp add: findById_emit)
  have u2: "url (mark_failed msg a) = u" using Suc.prems(3) by simp
  have re2: "read_error ''open'' (resolve env u) (files ?w2 (resolve env u)) = Some msg"
    using Suc.prems(5) fl by (simp add: files_emit)
  from Suc.IH [OF f2 n1 u2 Suc.prems(4) re2, of "Suc made"] obtain w' where
    r: "run_attempts env job (Suc made) left ?w2 = (Inl msg, w')"
    and rt: "retries (new_events ?w2 w') = map Suc [Suc made..<Suc made + left]"
    and fr: "file_reads (new_events ?w2 w') = replicate (Suc left) (resolve env u)"
    and bc: "backend_calls (new_events ?w2 w') = []"
    by blast
  from run_attempts_extends [of env job "Suc made" left ?w2] r
  have "events w' = events ?w2 @ new_events ?w2 w'"
    using extends_iff [of w' ?w2] by simp
  then have "events w' = events w @ ([SaveEntry s, FsReadFile (resolve env u), SaveEntry e1]
                @ [RetryScheduled (Suc made)] @ new_events ?w2 w')"
    using ev1 by (simp add: events_emit)
  then have nw: "new_events w w' = [SaveEntry s, FsReadFile (resolve env u), SaveEntry e1]
                @ [RetryScheduled (Suc made)] @ new_events ?w2 w'"
    by (rule new_events_append)
  have "run_attempts env job made (Suc left) w = (Inl msg, w')"
    using j r by simp
  moreover have "retries (new_events w w') = map Suc [made..<made + Suc left]"
    unfolding nw using rt by (simp add: retries_append upt_conv_Cons)
  moreover have "file_reads (new_events w w') = replicate (Suc (Suc left)) (resolve env u)"
    unfolding nw using fr by (simp add: file_reads_append)
  moreover have "backend_calls (new_events w w') = []"
    unfolding nw using bc by (simp add: backend_calls_append)
  ultimately show ?case by blast
qed

lemma transcribeSynchronously_unreadable:
  assumes a: "audioRecordings e = a # rs"
    and re: "read_error ''open'' (resolve env (url a)) (files w (resolve env (url a))) = Some msg"
  shows "transcribeSynchronously env e w
           = (update_recording e 0 (mark_failed msg),
              save (update_recording e 0 (mark_failed msg))
                (emit (FsReadFile (resolve env (url a))) w))"
  using assms
  by (auto simp: transcribeSynchronously_def transcribeSynchronously_try_def Let_def
      read_error_def files_emit split: option.splits stored_file.splits)

subsection \<open>The shape of what the handlers and workers add to the events\<close>

lemma saved_entries_work: "transcription_work x \<Longrightarrow> saved_entries (x # evs) = saved_entries evs"
  by (cases x) simp_all

lemma upload_shape:
  assumes "upload env user entryId (Some f) dur w = (AudioUploaded i r, w1, w2)"
  shows "\<exists>p e1 e2 a. events w1 = events w @ [FsWriteFile p, SaveEntry e1, SaveEntry e2]
           \<and> status_at i e1 = Some Not_requested
           \<and> store w1 entryId = Some e2 \<and> entry_id e2 = entryId
           \<and> nth_opt (audioRecordings e2) i = Some a \<and> transcriptionStatus a = Processing
           \<and> w2 = snd (snd (ProcessTranscription env e2 i w1))"
proof -
  from assms obtain logEntry where f: "findOne w entryId user = Some logEntry"
    by (auto simp: upload_def split: option.splits)
  have id: "entry_id logEntry = entryId" using findOne_SomeD [OF f] by simp
  define p where "p = resolve env (''uploads/audio/'' @ user @ ''_'' @ show_nat (now env) @ ''_''
                        @ originalname f)"
  define a0 where "a0 = new_recording
      (''/uploads/audio/'' @ user @ ''_'' @ show_nat (now env) @ ''_'' @ originalname f)
      (originalname f) (length (buffer f))
      (case dur of None \<Rightarrow> None | Some d \<Rightarrow> if d = 0 then None else Some d)
      (now env) Not_requested"
  define e1 where "e1 = logEntry\<lparr>audioRecordings := audioRecordings logEntry @ [a0]\<rparr>"
  define j where "j = int (length (audioRecordings e1)) - 1"
  define e2 where "e2 = update_recording e1 j (\<lambda>r. r\<lparr>transcriptionStatus := Processing\<rparr>)"
  define w4 where "w4 = save e2 (save e1 ((emit (FsWriteFile p) w)
                          \<lparr>files := (files (emit (FsWriteFile p) w))(p \<mapsto> Readable (buffer f))\<rparr>))"
  from assms f have res: "i = j \<and> w1 = w4 \<and> w2 = snd (snd (ProcessTranscription env e2 j w4))"
    by (auto simp: upload_def Let_def p_def a0_def e1_def j_def e2_def w4_def
        split: option.splits)
  have n1: "nth_opt (audioRecordings e1) j = Some a0"
    by (simp add: nth_opt_def e1_def j_def)
  have "events w4 = events w @ [FsWriteFile p, SaveEntry e1, SaveEntry e2]"
    by (simp add: w4_def events_save events_emit)
  moreover have "status_at j e1 = Some Not_requested"
    using n1 by (simp add: status_at_def a0_def new_recording_def)
  moreover have "entry_id e2 = entryId"
    using id by (simp add: e2_def e1_def entry_id_update_recording)
  moreover from this have "store w4 entryId = Some e2"
    by (simp add: w4_def store_save)
  moreover have "nth_opt (audioRecordings e2) j = Some (a0\<lparr>transcriptionStatus := Processing\<rparr>)"
    unfolding e2_def using nth_opt_update_recording [OF n1] by simp
  ultimately show ?thesis using res by auto
qed

lemma createEntry_shape:
  assumes "createEntry env user (Some f) w = (EntryCreated e', w')"
  shows "\<exists>p e a w3. events w3 = events w @ [FsWriteFile p, SaveEntry e]
           \<and> entry_id e = new_entry_id env \<and> audioRecordings e = [a]
           \<and> transcriptionStatus a = Processing
           \<and> url a = ''/uploads/audio/'' @ user @ ''_'' @ show_nat (now env) @ ''_''
                       @ sanitize (originalname f)
           \<and> store w3 (new_entry_id env) = Some e
           \<and> dispatch env e w3 = (e', w')"
proof -
  define p where "p = resolve env (''uploads/audio/'' @ user @ ''_'' @ show_nat (now env) @ ''_''
                        @ sanitize (originalname f))"
  define a where "a = new_recording
      (''/uploads/audio/'' @ user @ ''_'' @ show_nat (now env) @ ''_'' @ sanitize (originalname f))
      (originalname f) (length (buffer f)) None (now env) Processing"
  define e where "e = \<lparr>entry_id = new_entry_id env, userId = user, audioRecordings = [a]\<rparr>"
  define w3 where "w3 = save e ((emit (FsWriteFile p) w)
                          \<lparr>files := (files (emit (FsWriteFile p) w))(p \<mapsto> Readable (buffer f))\<rparr>)"
  have "events w3 = events w @ [FsWriteFile p, SaveEntry e]"
    by (simp add: w3_def events_save events_emit)
  moreover have "entry_id e = new_entry_id env" "audioRecordings e = [a]"
    by (simp_all add: e_def)
  moreover have "transcriptionStatus a = Processing"
    by (simp add: a_def new_recording_def)
  moreover have "url a = ''/uploads/audio/'' @ user @ ''_'' @ show_nat (now env) @ ''_''
                       @ sanitize (originalname f)"
    by (simp add: a_def new_recording_def)
  moreover have "store w3 (new_entry_id env) = Some e"
    by (simp add: w3_def store_save e_def)
  moreover from assms have "dispatch env e w3 = (e', w')"
    by (auto simp: createEntry_def Let_def p_def a_def e_def w3_def
        split: option.splits prod.splits)
  ultimately show ?thesis by blast
qed

lemma dispatch_unusable:
  assumes "dispatch env e w = (e', w')"
    and "audioRecordings e = r # rs"
    and "queue_unusable env
           \<lparr>job_entryId = entry_id e, job_audioUrl = url r, job_recordingIndex = Some 0\<rparr>"
  shows "\<exists>w0. transcribeSynchronously env e w0 = (e', w') \<and> store w0 = store w"
  using assms
  by (auto simp: dispatch_def queue_unusable_def Let_def store_emit
      split: option.splits if_splits)

subsection \<open>The statuses a reader can see once the dispatch has begun\<close>

lemma dispatch_shape:
  assumes d: "dispatch env e w = (e', w')"
    and a: "audioRecordings e = r # rs"
  shows "\<exists>x evs. events w' = events w @ x # evs \<and> transcription_work x
           \<and> (\<forall>d \<in> set (saved_entries evs). status_at 0 d \<in> {Some Completed, Some Failed})"
proof -
  have ts: "\<And>w0 e1 w1. transcribeSynchronously env e w0 = (e1, w1) \<Longrightarrow>
              \<exists>evs. events w1 = events w0 @ FsReadFile (resolve env (url r)) # evs
                \<and> (\<forall>d \<in> set (saved_entries evs). status_at 0 d \<in> {Some Completed, Some Failed})"
  proof -
    fix w0 e1 w1 assume "transcribeSynchronously env e w0 = (e1, w1)"
    from transcribeSynchronously_outcome [OF this a] obtain evs where
      s: "status_at 0 e1 \<in> {Some Completed, Some Failed}"
      and ev: "events w1 = events w0 @ FsReadFile (resolve env (url r)) # evs @ [SaveEntry e1]"
              "saved_entries evs = []" by blast
    have "saved_entries (evs @ [SaveEntry e1]) = [e1]"
      using ev(2) by (simp add: saved_entries_append)
    with s ev(1) show "\<exists>evs. events w1 = events w0 @ FsReadFile (resolve env (url r)) # evs
                \<and> (\<forall>d \<in> set (saved_entries evs). status_at 0 d \<in> {Some Completed, Some Failed})"
      by (intro exI [of _ "evs @ [SaveEntry e1]"]) simp
  qed
  show ?thesis
  proof (cases "if redisAvailable env then transcriptionQueue env else None")
    case None
    with d a have "transcribeSynchronously env e w = (e', w')"
      by (auto simp: dispatch_def)
    from ts [OF this] show ?thesis by (metis transcription_work.simps(3))
  next
    case (Some add)
    let ?job = "\<lparr>job_entryId = entry_id e, job_audioUrl = url r, job_recordingIndex = Some 0\<rparr>"
    let ?w1 = "emit (QueueAdd ?job defaultJobOptions) w"
    show ?thesis
    proof (cases "add ?job defaultJobOptions")
      case None
      with d a Some have "w' = ?w1" by (auto simp: dispatch_def Let_def)
      then have "events w' = events w @ QueueAdd ?job defaultJobOptions # []"
        by (simp add: events_emit)
      then show ?thesis
        by (intro exI [of _ "QueueAdd ?job defaultJobOptions"] exI [of _ "[]"]) simp
    next
      case (Some err)
      with d a \<open>(if redisAvailable env then transcriptionQueue env else None) = Some add\<close>
      have "transcribeSynchronously env e ?w1 = (e', w')" by (auto simp: dispatch_def Let_def)
      from ts [OF this] obtain evs where
        ev: "events w' = events ?w1 @ FsReadFile (resolve env (url r)) # evs"
        and s: "\<forall>d \<in> set (saved_entries evs). status_at 0 d \<in> {Some Completed, Some Failed}"
        by blast
      from ev have "events w' = events w @ QueueAdd ?job defaultJobOptions
                      # (FsReadFile (resolve env (url r)) # evs)"
        by (simp add: events_emit)
      with s show ?thesis
        by (intro exI [of _ "QueueAdd ?job defaultJobOptions"]
              exI [of _ "FsReadFile (resolve env (url r)) # evs"]) simp
    qed
  qed
qed

lemma process_try_saved:
  assumes "process_try env job w = (r, w1)"
  shows "events w1 = events w @ new_events w w1
         \<and> (\<forall>d \<in> set (saved_entries (new_events w w1)).
               status_at (job_index job) d \<in> {Some Processing, Some Completed})"
  using assms
  by (auto simp: process_try_def Let_def new_events_def events_emit events_save
      status_at_def nth_opt_update_recording
      split: option.splits stored_file.splits sum.splits if_splits)

lemma process_catch_saved:
  assumes "process_catch msg job w1 = (r, w')"
  shows "events w' = events w1 @ new_events w1 w'
         \<and> (\<forall>d \<in> set (saved_entries (new_events w1 w')).
               status_at (job_index job) d = Some Failed)"
  using assms
  by (auto simp: process_catch_def Let_def new_events_def events_save
      status_at_def nth_opt_update_recording
      split: option.splits)

lemma process_job_saved:
  "\<forall>d \<in> set (saved_entries (new_events w (snd (process_job env job w)))).
     status_at (job_index job) d \<in> {Some Processing, Some Completed, Some Failed}"
proof -
  obtain r w1 where t: "process_try env job w = (r, w1)"
    by (cases "process_try env job w") auto
  from process_try_saved [OF t]
  have e1: "events w1 = events w @ new_events w w1"
    and s1: "\<forall>d \<in> set (saved_entries (new_events w w1)).
               status_at (job_index job) d \<in> {Some Processing, Some Completed}" by auto
  show ?thesis
  proof (cases r)
    case (Inr x)
    with t have "snd (process_job env job w) = w1" by (simp add: process_job_def)
    with s1 show ?thesis by auto
  next
    case (Inl msg)
    obtain r2 w2 where c: "process_catch msg job w1 = (r2, w2)"
      by (cases "process_catch msg job w1") auto
    from process_catch_saved [OF c]
    have e2: "events w2 = events w1 @ new_events w1 w2"
      and s2: "\<forall>d \<in> set (saved_entries (new_events w1 w2)).
               status_at (job_index job) d = Some Failed" by auto
    from t Inl c have w2: "snd (process_job env job w) = w2" by (simp add: process_job_def)
    have "events w2 = events w @ (new_events w w1 @ new_events w1 w2)"
      using e1 e2 by simp
    then have "new_events w w2 = new_events w w1 @ new_events w1 w2"
      by (rule new_events_append)
    with s1 s2 w2 show ?thesis by (auto simp: saved_entries_append)
  qed
qed

subsection \<open>Error messages are not empty when the collaborators' are not\<close>







section \<open>C1: no second attempt while one is in progress\<close>

text \<open>
  Claim C1. For a recording the handler can address (the entry is the user's, the index is
  in range): when its status is \<open>processing\<close>, \<open>requestTranscription\<close> answers
  \<open>AlreadyInProgress\<close> and leaves the world as it was, so no document is saved, no
  transcription function is called and the status stays \<open>processing\<close>; for any other
  status it saves the entry with this recording set to \<open>processing\<close> and answers with the
  outcome of \<open>ProcessTranscription\<close> run on that document before it returns.
\<close>

theorem requestTranscription_guard:
  assumes "findOne w entryId user = Some logEntry"
    and "nth_opt (audioRecordings logEntry) audioIndex = Some audio"
  shows "if transcriptionStatus audio = Processing
         then requestTranscription env user entryId audioIndex w = (AlreadyInProgress, w)
         else (let logEntry' = update_recording logEntry audioIndex
                                 (\<lambda>r. r\<lparr>transcriptionStatus := Processing\<rparr>)
               in nth_opt (audioRecordings logEntry') audioIndex
                    = Some (audio\<lparr>transcriptionStatus := Processing\<rparr>)
                \<and> store (save logEntry' w) entryId = Some logEntry'
                \<and> events (save logEntry' w) = events w @ [SaveEntry logEntry']
                \<and> requestTranscription env user entryId audioIndex w
                    = transcribe_response audioIndex
                        (ProcessTranscription env logEntry' audioIndex (save logEntry' w)))"
proof (cases "transcriptionStatus audio = Processing")
  case True
  with assms show ?thesis by (simp add: requestTranscription_def)
next
  case False
  let ?d = "update_recording logEntry audioIndex (\<lambda>r. r\<lparr>transcriptionStatus := Processing\<rparr>)"
  have id: "entry_id ?d = entryId"
    using findOne_SomeD [OF assms(1)] by (simp add: update_recording_def)
  have "nth_opt (audioRecordings ?d) audioIndex = Some (audio\<lparr>transcriptionStatus := Processing\<rparr>)"
    using nth_opt_update_recording [OF assms(2)] by simp
  moreover have "store (save ?d w) entryId = Some ?d"
    using id by (simp add: store_save)
  moreover have "requestTranscription env user entryId audioIndex w
       = transcribe_response audioIndex (ProcessTranscription env ?d audioIndex (save ?d w))"
    using assms False by (simp add: requestTranscription_def Let_def)
  ultimately show ?thesis using False by (simp add: Let_def events_save)
qed

theorem requestTranscription_guard_witness:
  "requestTranscription demo_env ''u1'' ''e1'' 0 (demo_world (demo_recording Processing) demo_files)
     = (AlreadyInProgress, demo_world (demo_recording Processing) demo_files)
   \<and> fst (requestTranscription demo_env ''u1'' ''e1'' 0 (demo_world (demo_recording Failed) demo_files))
     = TranscriptionCompleted 0 (Some ''short text'')"
proof -
  have f: "\<And>st. findOne (demo_world (demo_recording st) demo_files) ''e1'' ''u1''
             = Some (demo_entry (demo_recording st))"
    by (simp add: findOne_def demo_world_def demo_entry_def)
  have n: "\<And>st. nth_opt (audioRecordings (demo_entry (demo_recording st))) 0 = Some (demo_recording st)"
    by (simp add: nth_opt_def demo_entry_def)
  have s: "\<And>st. transcriptionStatus (demo_recording st) = st"
    by (simp add: demo_recording_def new_recording_def)
  have "requestTranscription demo_env ''u1'' ''e1'' 0 (demo_world (demo_recording Processing) demo_files)
          = (AlreadyInProgress, demo_world (demo_recording Processing) demo_files)"
    using requestTranscription_guard [OF f n, of Processing demo_env] by (simp add: s)
  moreover have "fst (requestTranscription demo_env ''u1'' ''e1'' 0
                        (demo_world (demo_recording Failed) demo_files))
                   = TranscriptionCompleted 0 (Some ''short text'')"
    using requestTranscription_guard [OF f n, of Failed demo_env]
    by (simp add: s model_defs demo_defs Let_def)
  ultimately show ?thesis by simp
qed

section \<open>C2: the fallback when the queue cannot be used\<close>

text \<open>
  Claim C2, as stated, fails on \<open>POST /api/audio/upload/:entryId\<close>. That handler never uses
  the queue; it starts \<open>ProcessTranscription\<close> and does not wait for it ("don't wait for
  it"), so it answers while the recording is \<open>processing\<close>. Here an upload with no queue
  configured: the recording is \<open>processing\<close> when the handler answers and \<open>completed\<close>
  only once the worker has finished.
\<close>

theorem upload_answers_while_processing:
  "transcriptionQueue demo_env = None
   \<and> map_option transcriptionStatus
        (recording_at (fst (snd (upload demo_env ''u1'' ''e1'' (Some demo_upload) None
           (demo_world demo_transcribed demo_files)))) ''e1'' 1)
     = Some Processing
   \<and> map_option transcriptionStatus
        (recording_at (snd (snd (upload demo_env ''u1'' ''e1'' (Some demo_upload) None
           (demo_world demo_transcribed demo_files)))) ''e1'' 1)
     = Some Completed"
proof -
  have sn: "show_nat 1000 = ''1000''" by code_simp
  show ?thesis by (simp add: model_defs demo_defs Let_def sn)
qed

text \<open>
  Claim C2, amended. On the create-entry route, when the queue cannot be used for the job
  of the new recording (\<open>redisAvailable && transcriptionQueue\<close> is false, or \<open>add\<close> throws
  on that job), the dispatcher awaits \<open>transcribeSynchronously\<close>, so the new recording is
  \<open>completed\<close> or \<open>failed\<close> in the store when the handler answers. On the upload route the
  worker runs in the same process but is not awaited: the recording is \<open>processing\<close> when
  the handler answers and \<open>completed\<close> or \<open>failed\<close> once the worker has finished, and the
  route hands no job to the queue. Neither needs a queue worker.
\<close>

theorem fallback_reaches_terminal_status:
  "(createEntry env user (Some f) w = (EntryCreated e', w')
      \<and> queue_unusable env
           \<lparr>job_entryId = new_entry_id env,
            job_audioUrl = ''/uploads/audio/'' @ user @ ''_'' @ show_nat (now env) @ ''_''
                             @ sanitize (originalname f),
            job_recordingIndex = Some 0\<rparr>
      \<longrightarrow> map_option transcriptionStatus (recording_at w' (new_entry_id env) 0)
            \<in> {Some Completed, Some Failed}
          \<and> status_at 0 e' \<in> {Some Completed, Some Failed})
   \<and> (upload env user entryId (Some f2) dur w = (AudioUploaded i r, w1, w2)
      \<longrightarrow> map_option transcriptionStatus (recording_at w1 entryId i) = Some Processing
          \<and> map_option transcriptionStatus (recording_at w2 entryId i)
            \<in> {Some Completed, Some Failed}
          \<and> queued_jobs (new_events w w1) = []
          \<and> queued_jobs (new_events w w2) = [])"
proof (intro conjI impI)
  assume h: "createEntry env user (Some f) w = (EntryCreated e', w')
      \<and> queue_unusable env
           \<lparr>job_entryId = new_entry_id env,
            job_audioUrl = ''/uploads/audio/'' @ user @ ''_'' @ show_nat (now env) @ ''_''
                             @ sanitize (originalname f),
            job_recordingIndex = Some 0\<rparr>"
  from createEntry_shape [OF h [THEN conjunct1]] obtain e a w3 where
    e: "entry_id e = new_entry_id env" "audioRecordings e = [a]"
    and ua: "url a = ''/uploads/audio/'' @ user @ ''_'' @ show_nat (now env) @ ''_''
                       @ sanitize (originalname f)"
    and d: "dispatch env e w3 = (e', w')" by blast
  from h e(1) ua have "queue_unusable env
           \<lparr>job_entryId = entry_id e, job_audioUrl = url a, job_recordingIndex = Some 0\<rparr>"
    by simp
  from dispatch_unusable [OF d e(2) this] obtain w0 where
    ts: "transcribeSynchronously env e w0 = (e', w')" by blast
  from transcribeSynchronously_outcome [OF ts e(2)]
  have st: "store w' = (store w0)(entry_id e \<mapsto> e')"
    and s: "status_at 0 e' \<in> {Some Completed, Some Failed}" by auto
  show "status_at 0 e' \<in> {Some Completed, Some Failed}" by (rule s)
  have "map_option transcriptionStatus (recording_at w' (new_entry_id env) 0) = status_at 0 e'"
    using st e(1) by (simp add: recording_at_def status_at_def)
  with s show "map_option transcriptionStatus (recording_at w' (new_entry_id env) 0)
            \<in> {Some Completed, Some Failed}" by simp
next
  assume u: "upload env user entryId (Some f2) dur w = (AudioUploaded i r, w1, w2)"
  from upload_shape [OF u] obtain p e1 e2 a where
    ev1: "events w1 = events w @ [FsWriteFile p, SaveEntry e1, SaveEntry e2]"
    and st1: "store w1 entryId = Some e2" and id: "entry_id e2 = entryId"
    and n: "nth_opt (audioRecordings e2) i = Some a" and p: "transcriptionStatus a = Processing"
    and w2: "w2 = snd (snd (ProcessTranscription env e2 i w1))" by blast
  show "map_option transcriptionStatus (recording_at w1 entryId i) = Some Processing"
    using st1 n p by (simp add: recording_at_def)
  obtain r' d' where pt: "ProcessTranscription env e2 i w1 = (r', d', w2)"
    using w2 by (cases "ProcessTranscription env e2 i w1") auto
  from ProcessTranscription_shape [OF n pt] obtain evs where
    st2: "store w2 = (store w1)(entry_id e2 \<mapsto> d')"
    and s: "status_at i d' \<in> {Some Completed, Some Failed}"
    and ev2: "events w2 = events w1 @ FsStat (audio_path env a) # evs @ [SaveEntry d']"
    and q: "queued_jobs evs = []" by blast
  have "map_option transcriptionStatus (recording_at w2 entryId i) = status_at i d'"
    using st2 id by (simp add: recording_at_def status_at_def)
  with s show "map_option transcriptionStatus (recording_at w2 entryId i)
            \<in> {Some Completed, Some Failed}" by simp
  have "new_events w w1 = [FsWriteFile p, SaveEntry e1, SaveEntry e2]"
    using ev1 by (rule new_events_append)
  then show "queued_jobs (new_events w w1) = []" by simp
  have "events w2 = events w @ ([FsWriteFile p, SaveEntry e1, SaveEntry e2]
                      @ FsStat (audio_path env a) # evs @ [SaveEntry d'])"
    using ev1 ev2 by simp
  then have "new_events w w2 = [FsWriteFile p, SaveEntry e1, SaveEntry e2]
                      @ FsStat (audio_path env a) # evs @ [SaveEntry d']"
    by (rule new_events_append)
  then show "queued_jobs (new_events w w2) = []"
    using q by (simp add: queued_jobs_append)
qed

theorem fallback_reaches_terminal_status_witness:
  "map_option transcriptionStatus
     (recording_at (snd (createEntry broken_queue_env ''u1'' (Some demo_upload) demo_empty_world))
        ''e2'' 0)
     \<in> {Some Completed, Some Failed}
   \<and> map_option transcriptionStatus
        (recording_at (fst (snd (upload demo_env ''u1'' ''e1'' (Some demo_upload) None
           (demo_world demo_transcribed demo_files)))) ''e1'' 1)
     = Some Processing
   \<and> map_option transcriptionStatus
        (recording_at (snd (snd (upload demo_env ''u1'' ''e1'' (Some demo_upload) None
           (demo_world demo_transcribed demo_files)))) ''e1'' 1)
     \<in> {Some Completed, Some Failed}
   \<and> queued_jobs (new_events (demo_world demo_transcribed demo_files)
        (snd (snd (upload demo_env ''u1'' ''e1'' (Some demo_upload) None
           (demo_world demo_transcribed demo_files))))) = []"
proof -
  have sn: "show_nat 1000 = ''1000''" by code_simp
  define c where "c = createEntry broken_queue_env ''u1'' (Some demo_upload) demo_empty_world"
  define u where "u = upload demo_env ''u1'' ''e1'' (Some demo_upload) None
                        (demo_world demo_transcribed demo_files)"
  have "\<exists>e'. fst c = EntryCreated e'"
    unfolding c_def by (simp add: model_defs demo_defs Let_def sn split: prod.splits)
  then obtain e' where c: "c = (EntryCreated e', snd c)" by (cases c) auto
  have "\<exists>r. fst u = AudioUploaded 1 r"
    unfolding u_def by (simp add: model_defs demo_defs Let_def sn)
  then obtain r where u: "u = (AudioUploaded 1 r, fst (snd u), snd (snd u))" by (cases u) auto
  have q: "queue_unusable broken_queue_env
             \<lparr>job_entryId = new_entry_id broken_queue_env,
              job_audioUrl = ''/uploads/audio/'' @ ''u1'' @ ''_'' @ show_nat (now broken_queue_env)
                               @ ''_'' @ sanitize (originalname demo_upload),
              job_recordingIndex = Some 0\<rparr>"
    by (simp add: queue_unusable_def broken_queue_env_def demo_env_def)
  have n: "new_entry_id broken_queue_env = ''e2''"
    by (simp add: broken_queue_env_def demo_env_def)
  from fallback_reaches_terminal_status
         [where env = broken_queue_env and user = "''u1''" and f = demo_upload
            and w = demo_empty_world and e' = e' and w' = "snd c", THEN conjunct1]
       c q
  have A: "map_option transcriptionStatus (recording_at (snd c) ''e2'' 0)
             \<in> {Some Completed, Some Failed}"
    unfolding c_def [symmetric] n by blast
  from fallback_reaches_terminal_status
         [where env = demo_env and user = "''u1''" and entryId = "''e1''" and ?f2.0 = demo_upload
            and dur = None and w = "demo_world demo_transcribed demo_files" and i = 1 and r = r
            and ?w1.0 = "fst (snd u)" and ?w2.0 = "snd (snd u)", THEN conjunct2]
       u
  have B: "map_option transcriptionStatus (recording_at (fst (snd u)) ''e1'' 1) = Some Processing
          \<and> map_option transcriptionStatus (recording_at (snd (snd u)) ''e1'' 1)
            \<in> {Some Completed, Some Failed}
          \<and> queued_jobs (new_events (demo_world demo_transcribed demo_files) (snd (snd u))) = []"
    unfolding u_def [symmetric] by blast
  from A B show ?thesis unfolding c_def u_def by blast
qed

section \<open>C3: which transcription function a worker calls\<close>

text \<open>
  \<open>ProcessTranscription\<close> chooses by size: whenever it calls a transcription function, that
  is \<open>transcribeLongAudio\<close> for a file of more than 1024 * 1024 bytes and \<open>transcribeAudio\<close>
  for any other file, and it calls at most one of them.
\<close>

lemma ProcessTranscription_routes_by_size:
  assumes "ProcessTranscription env d i w = (r, d', w')"
  shows "\<exists>evs. events w' = events w @ evs
           \<and> (backend_calls evs = []
              \<or> (\<exists>b. backend_calls evs = [(1024 * 1024 < length b, b)]))"
proof -
  have t: "\<And>r1 d1 w1. ProcessTranscription_try env d i w = (r1, d1, w1) \<Longrightarrow>
             \<exists>evs. events w1 = events w @ evs
               \<and> (backend_calls evs = []
                  \<or> (\<exists>b. backend_calls evs = [(1024 * 1024 < length b, b)]))"
    by (auto simp: ProcessTranscription_try_def Let_def events_emit events_save
        split: option.splits stored_file.splits sum.splits if_splits)
  obtain r1 d1 w1 where p: "ProcessTranscription_try env d i w = (r1, d1, w1)"
    by (cases "ProcessTranscription_try env d i w") auto
  from t [OF p] obtain evs where
    evs: "events w1 = events w @ evs"
         "backend_calls evs = [] \<or> (\<exists>b. backend_calls evs = [(1024 * 1024 < length b, b)])"
    by blast
  from assms p have "events w' = events w1 \<or> (\<exists>d2. events w' = events w1 @ [SaveEntry d2])"
    by (auto simp: ProcessTranscription_def ProcessTranscription_catch_def Let_def events_save
        split: sum.splits option.splits)
  then show ?thesis
  proof
    assume "events w' = events w1"
    with evs show ?thesis by auto
  next
    assume "\<exists>d2. events w' = events w1 @ [SaveEntry d2]"
    then obtain d2 where "events w' = events w @ (evs @ [SaveEntry d2])"
      using evs(1) by auto
    moreover have "backend_calls (evs @ [SaveEntry d2]) = backend_calls evs"
      by (simp add: backend_calls_append)
    ultimately show ?thesis using evs(2) by metis
  qed
qed

text \<open>
  Claim C3 asks the same of the queue's processor, which does not do it: it never looks at
  the size and always calls \<open>transcribeAudio\<close>. Here a job for a recording of
  1024 * 1024 + 1 bytes: the processor makes the short-form call, where
  \<open>ProcessTranscription\<close>, on the same recording, makes the long-form call.
\<close>

theorem processor_calls_short_form_on_large_file:
  "backend_calls (events (snd (process_job demo_env demo_job
       (demo_world (demo_recording Processing) demo_large_files))))
     = [(False, replicate 1048577 0)]
   \<and> backend_calls (events (snd (snd (ProcessTranscription demo_env
       (demo_entry (demo_recording Processing)) 0
       (demo_world (demo_recording Processing) demo_large_files)))))
     = [(True, replicate 1048577 0)]"
  by (simp add: model_defs demo_defs Let_def)

section \<open>C4: what a successful attempt writes\<close>

text \<open>
  Claim C4 holds of the queue's processor, which sets \<open>transcriptionError\<close> to \<open>null\<close> on
  success, and fails on the inline path: \<open>ProcessTranscription\<close> writes the transcript, the
  status and the timestamp and leaves \<open>transcriptionError\<close> as it was. Here a recording
  whose last attempt failed is transcribed again with success: through
  \<open>requestTranscription\<close> it ends \<open>completed\<close> with the old error still in place, through
  the queue's processor it ends \<open>completed\<close> with no error.
\<close>

theorem inline_success_keeps_old_error:
  "fst (requestTranscription demo_env ''u1'' ''e1'' 0 (demo_world demo_failed demo_files))
     = TranscriptionCompleted 0 (Some ''short text'')
   \<and> map_option transcriptionStatus
        (recording_at (snd (requestTranscription demo_env ''u1'' ''e1'' 0
           (demo_world demo_failed demo_files))) ''e1'' 0)
     = Some Completed
   \<and> map_option transcriptionError
        (recording_at (snd (requestTranscription demo_env ''u1'' ''e1'' 0
           (demo_world demo_failed demo_files))) ''e1'' 0)
     = Some (Some ''quota exceeded'')
   \<and> map_option transcriptionError
        (recording_at (snd (process_job demo_env demo_job
           (demo_world demo_failed demo_files))) ''e1'' 0)
     = Some None"
  by (simp add: model_defs demo_defs Let_def)

section \<open>C5: a stored file that is missing or unreadable\<close>

text \<open>
  Claim C5, as stated, fails on the queue path. The processor's \<open>catch\<close> does not tell an
  error of the file system from any other: it records the failure and throws the error
  again ("Re-throw for Bull to handle retries"), so the queue tries the job again. Here a
  job whose file is missing, run by the queue with the options of config/queue.js: the
  processor throws, two retries are scheduled and the file is read three times.
\<close>

theorem queue_retries_missing_file:
  "fst (process_job demo_env demo_job (demo_world (demo_recording Processing) Map.empty))
     = Inl (enoent ''open'' ''/app/uploads/audio/a.webm'')
   \<and> retries (events (snd (run_job demo_env defaultJobOptions demo_job
        (demo_world (demo_recording Processing) Map.empty))))
     = [1, 2]
   \<and> file_reads (events (snd (run_job demo_env defaultJobOptions demo_job
        (demo_world (demo_recording Processing) Map.empty))))
     = [''/app/uploads/audio/a.webm'', ''/app/uploads/audio/a.webm'',
        ''/app/uploads/audio/a.webm'']"
  by (simp add: model_defs demo_defs Let_def eval_nat_numeral)

text \<open>
  Claim C5, amended. When the stored file of a recording is missing or unreadable, an
  attempt by any of the three workers, \<open>ProcessTranscription\<close> (inline),
  \<open>transcribeSynchronously\<close> (the fallback of the create-entry route) and the queue's
  processor, ends with the recording \<open>failed\<close> and the message of the file-system error in
  \<open>transcriptionError\<close>, and calls no transcription function. The two in-process workers
  schedule no retry. The queue's processor throws the error to the queue, which schedules
  a retry whenever attempts are left: with the options of config/queue.js it makes 3
  attempts in total, each reading the file again, and schedules 2 retries.
\<close>

theorem unreadable_file_attempt:
  "(nth_opt (audioRecordings d) i = Some a
      \<and> read_error ''stat'' (audio_path env a) (files w (audio_path env a)) = Some msg
    \<longrightarrow> (\<exists>d' w'. ProcessTranscription env d i w = (Inl msg, d', w')
           \<and> recording_at w' (entry_id d) i = Some (mark_failed msg a)
           \<and> backend_calls (new_events w w') = [] \<and> retries (new_events w w') = []))
   \<and> (audioRecordings e0 = a0 # rs
      \<and> read_error ''open'' (resolve env (url a0)) (files w (resolve env (url a0))) = Some msg0
    \<longrightarrow> (\<exists>e' w'. transcribeSynchronously env e0 w = (e', w')
           \<and> recording_at w' (entry_id e0) 0 = Some (mark_failed msg0 a0)
           \<and> backend_calls (new_events w w') = [] \<and> retries (new_events w w') = []))
   \<and> (findById w (job_entryId job) = Some e
      \<and> nth_opt (audioRecordings e) (job_index job) = Some a2
      \<and> url a2 \<noteq> []
      \<and> read_error ''open'' (resolve env (url a2)) (files w (resolve env (url a2))) = Some msg2
    \<longrightarrow> (\<exists>w'. process_job env job w = (Inl msg2, w')
           \<and> recording_at w' (job_entryId job) (job_index job) = Some (mark_failed msg2 a2)
           \<and> backend_calls (new_events w w') = []
           \<and> (\<forall>made left. RetryScheduled (Suc made)
                 \<in> set (new_events w (snd (run_attempts env job made (Suc left) w)))))
        \<and> fst (run_job env defaultJobOptions job w) = Inl msg2
        \<and> retries (new_events w (snd (run_job env defaultJobOptions job w))) = [1, 2]
        \<and> file_reads (new_events w (snd (run_job env defaultJobOptions job w)))
            = [resolve env (url a2), resolve env (url a2), resolve env (url a2)]
        \<and> backend_calls (new_events w (snd (run_job env defaultJobOptions job w))) = [])"
proof (intro conjI impI)
  assume "nth_opt (audioRecordings d) i = Some a
      \<and> read_error ''stat'' (audio_path env a) (files w (audio_path env a)) = Some msg"
  then show "\<exists>d' w'. ProcessTranscription env d i w = (Inl msg, d', w')
           \<and> recording_at w' (entry_id d) i = Some (mark_failed msg a)
           \<and> backend_calls (new_events w w') = [] \<and> retries (new_events w w') = []"
    using ProcessTranscription_unreadable by blast
next
  assume h: "audioRecordings e0 = a0 # rs
      \<and> read_error ''open'' (resolve env (url a0)) (files w (resolve env (url a0))) = Some msg0"
  let ?e' = "update_recording e0 0 (mark_failed msg0)"
  let ?w' = "save ?e' (emit (FsReadFile (resolve env (url a0))) w)"
  from h have n: "nth_opt (audioRecordings e0) 0 = Some a0" by (simp add: nth_opt_def)
  from h have ts: "transcribeSynchronously env e0 w = (?e', ?w')"
    using transcribeSynchronously_unreadable by blast
  have "recording_at ?w' (entry_id e0) 0 = Some (mark_failed msg0 a0)"
    using nth_opt_update_recording [OF n]
    by (simp add: recording_at_def store_save entry_id_update_recording)
  moreover have "backend_calls (new_events w ?w') = []" "retries (new_events w ?w') = []"
    by (simp_all add: new_events_def events_save events_emit)
  ultimately show "\<exists>e' w'. transcribeSynchronously env e0 w = (e', w')
           \<and> recording_at w' (entry_id e0) 0 = Some (mark_failed msg0 a0)
           \<and> backend_calls (new_events w w') = [] \<and> retries (new_events w w') = []"
    using ts by blast
next
  assume h: "findById w (job_entryId job) = Some e
      \<and> nth_opt (audioRecordings e) (job_index job) = Some a2
      \<and> url a2 \<noteq> []
      \<and> read_error ''open'' (resolve env (url a2)) (files w (resolve env (url a2))) = Some msg2"
  then obtain w' where j: "process_job env job w = (Inl msg2, w')"
    and r: "recording_at w' (job_entryId job) (job_index job) = Some (mark_failed msg2 a2)"
    and b: "backend_calls (new_events w w') = []"
    using process_job_unreadable [of w job e a2 env msg2] by blast
  from process_job_extends [of env job w] j obtain evs1 where e1: "events w' = events w @ evs1"
    by auto
  have "\<forall>made left. RetryScheduled (Suc made)
          \<in> set (new_events w (snd (run_attempts env job made (Suc left) w)))"
  proof (intro allI)
    fix made left
    let ?w1 = "emit (RetryScheduled (Suc made)) w'"
    from run_attempts_extends [of env job "Suc made" left ?w1] obtain evs2 where
      "events (snd (run_attempts env job (Suc made) left ?w1)) = events ?w1 @ evs2" by blast
    with j e1 have "events (snd (run_attempts env job made (Suc left) w))
                      = events w @ (evs1 @ RetryScheduled (Suc made) # evs2)"
      by (simp add: events_emit)
    then have "new_events w (snd (run_attempts env job made (Suc left) w))
                 = evs1 @ RetryScheduled (Suc made) # evs2"
      by (rule new_events_append)
    then show "RetryScheduled (Suc made)
                 \<in> set (new_events w (snd (run_attempts env job made (Suc left) w)))"
      by simp
  qed
  with j r b show "\<exists>w'. process_job env job w = (Inl msg2, w')
           \<and> recording_at w' (job_entryId job) (job_index job) = Some (mark_failed msg2 a2)
           \<and> backend_calls (new_events w w') = []
           \<and> (\<forall>made left. RetryScheduled (Suc made)
                 \<in> set (new_events w (snd (run_attempts env job made (Suc left) w))))"
    by blast
  have rj: "run_job env defaultJobOptions job w = run_attempts env job 0 (Suc (Suc 0)) w"
    by (simp add: run_job_def defaultJobOptions_def numeral_2_eq_2 [symmetric])
  from h run_attempts_unreadable [of w job e a2 "url a2" env msg2 0 "Suc (Suc 0)"]
  obtain w3 where ra: "run_attempts env job 0 (Suc (Suc 0)) w = (Inl msg2, w3)"
    and rt: "retries (new_events w w3) = map Suc [0..<0 + Suc (Suc 0)]"
    and fr: "file_reads (new_events w w3) = replicate (Suc (Suc (Suc 0))) (resolve env (url a2))"
    and bc: "backend_calls (new_events w w3) = []"
    by blast
  show "fst (run_job env defaultJobOptions job w) = Inl msg2"
    unfolding rj using ra by simp
  show "retries (new_events w (snd (run_job env defaultJobOptions job w))) = [1, 2]"
    unfolding rj using ra rt by (simp add: upt_rec numeral_2_eq_2)
  show "file_reads (new_events w (snd (run_job env defaultJobOptions job w)))
            = [resolve env (url a2), resolve env (url a2), resolve env (url a2)]"
    unfolding rj using ra fr by simp
  show "backend_calls (new_events w (snd (run_job env defaultJobOptions job w))) = []"
    unfolding rj using ra bc by simp
qed

theorem unreadable_file_attempt_witness:
  "(\<exists>d' w'. ProcessTranscription demo_env (demo_entry (demo_recording Processing)) 0
              (demo_world (demo_recording Processing) Map.empty)
             = (Inl (enoent ''stat'' ''/app/uploads/audio/a.webm''), d', w')
        \<and> recording_at w' ''e1'' 0
            = Some (mark_failed (enoent ''stat'' ''/app/uploads/audio/a.webm'')
                      (demo_recording Processing))
        \<and> retries (new_events (demo_world (demo_recording Processing) Map.empty) w') = [])
   \<and> (\<exists>e' w'. transcribeSynchronously demo_env (demo_entry (demo_recording Processing))
              (demo_world (demo_recording Processing) Map.empty) = (e', w')
        \<and> recording_at w' ''e1'' 0
            = Some (mark_failed (enoent ''open'' ''/app/uploads/audio/a.webm'')
                      (demo_recording Processing)))
   \<and> RetryScheduled 1 \<in> set (new_events (demo_world (demo_recording Processing) Map.empty)
        (snd (run_attempts demo_env demo_job 0 2 (demo_world (demo_recording Processing) Map.empty))))
   \<and> retries (new_events (demo_world (demo_recording Processing) Map.empty)
        (snd (run_job demo_env defaultJobOptions demo_job
                (demo_world (demo_recording Processing) Map.empty)))) = [1, 2]"
proof -
  let ?w = "demo_world (demo_recording Processing) Map.empty"
  let ?a = "demo_recording Processing"
  have u: "url ?a = ''/uploads/audio/a.webm''" "url ?a \<noteq> []"
    by (simp_all add: demo_recording_def new_recording_def)
  have p: "audio_path demo_env ?a = ''/app/uploads/audio/a.webm''"
    "resolve demo_env (url ?a) = ''/app/uploads/audio/a.webm''"
    by (simp_all add: u demo_env_def demo_resolve_def strip_leading_slash_def)
  have fl: "files ?w ''/app/uploads/audio/a.webm'' = None"
    by (simp add: demo_world_def)
  have r1: "read_error ''stat'' (audio_path demo_env ?a) (files ?w (audio_path demo_env ?a))
              = Some (enoent ''stat'' ''/app/uploads/audio/a.webm'')"
    by (simp add: p fl read_error_def)
  have r2: "read_error ''open'' (resolve demo_env (url ?a)) (files ?w (resolve demo_env (url ?a)))
              = Some (enoent ''open'' ''/app/uploads/audio/a.webm'')"
    by (simp add: p fl read_error_def)
  have i: "job_index demo_job = 0" "job_entryId demo_job = ''e1''"
    by (simp_all add: job_index_def demo_job_def)
  have e: "entry_id (demo_entry ?a) = ''e1''" by (simp add: demo_entry_def)
  have ar: "audioRecordings (demo_entry ?a) = ?a # []" by (simp add: demo_entry_def)
  note T = unreadable_file_attempt
    [where env = demo_env and d = "demo_entry ?a" and i = 0 and a = ?a and w = ?w
       and msg = "enoent ''stat'' ''/app/uploads/audio/a.webm''"
       and ?e0.0 = "demo_entry ?a" and ?a0.0 = ?a and rs = "[]"
       and ?msg0.0 = "enoent ''open'' ''/app/uploads/audio/a.webm''"
       and job = demo_job and e = "demo_entry ?a" and ?a2.0 = ?a
       and ?msg2.0 = "enoent ''open'' ''/app/uploads/audio/a.webm''"]
  have G: "nth_opt (audioRecordings (demo_entry ?a)) 0 = Some ?a
      \<and> read_error ''stat'' (audio_path demo_env ?a) (files ?w (audio_path demo_env ?a))
          = Some (enoent ''stat'' ''/app/uploads/audio/a.webm'')"
    using demo_nth_opt [of ?a] r1 by simp
  from T [THEN conjunct1, THEN mp, OF G]
  have A: "\<exists>d' w'. ProcessTranscription demo_env (demo_entry ?a) 0 ?w
             = (Inl (enoent ''stat'' ''/app/uploads/audio/a.webm''), d', w')
        \<and> recording_at w' ''e1'' 0
            = Some (mark_failed (enoent ''stat'' ''/app/uploads/audio/a.webm'') ?a)
        \<and> retries (new_events ?w w') = []"
    unfolding e by blast
  have F: "audioRecordings (demo_entry ?a) = ?a # []
      \<and> read_error ''open'' (resolve demo_env (url ?a)) (files ?w (resolve demo_env (url ?a)))
          = Some (enoent ''open'' ''/app/uploads/audio/a.webm'')"
    using ar r2 by simp
  from T [THEN conjunct2, THEN conjunct1, THEN mp, OF F]
  have S: "\<exists>e' w'. transcribeSynchronously demo_env (demo_entry ?a) ?w = (e', w')
        \<and> recording_at w' ''e1'' 0
            = Some (mark_failed (enoent ''open'' ''/app/uploads/audio/a.webm'') ?a)"
    unfolding e by blast
  have H: "findById ?w (job_entryId demo_job) = Some (demo_entry ?a)
      \<and> nth_opt (audioRecordings (demo_entry ?a)) (job_index demo_job) = Some ?a
      \<and> url ?a \<noteq> []
      \<and> read_error ''open'' (resolve demo_env (url ?a)) (files ?w (resolve demo_env (url ?a)))
          = Some (enoent ''open'' ''/app/uploads/audio/a.webm'')"
    using demo_findById [of ?a Map.empty] demo_nth_opt [of ?a] u(2) r2 by (simp add: i)
  note Q = T [THEN conjunct2, THEN conjunct2, THEN mp, OF H]
  from Q have "\<forall>made left. RetryScheduled (Suc made)
          \<in> set (new_events ?w (snd (run_attempts demo_env demo_job made (Suc left) ?w)))"
    by blast
  then have "RetryScheduled (Suc 0)
          \<in> set (new_events ?w (snd (run_attempts demo_env demo_job 0 (Suc (Suc 0)) ?w)))"
    by blast
  then have B: "RetryScheduled 1 \<in> set (new_events ?w (snd (run_attempts demo_env demo_job 0 2 ?w)))"
    by (simp only: numeral_2_eq_2 One_nat_def)
  from Q have C: "retries (new_events ?w (snd (run_job demo_env defaultJobOptions demo_job ?w)))
                    = [1, 2]"
    by blast
  from A S B C show ?thesis by blast
qed
section \<open>C6: \<open>processing\<close> is saved before the dispatch\<close>

text \<open>
  Claim C6. On the upload route and on the create-entry route, the last document saved
  before the first event of transcription work (the job handed to the queue, or the
  worker's first call of the file system) has the recording at \<open>processing\<close>, and every
  document saved after it, by the worker the handler runs, has the recording at
  \<open>completed\<close> or \<open>failed\<close>. The queue's processor, which runs later on the queued path,
  saves the recording at \<open>processing\<close>, \<open>completed\<close> or \<open>failed\<close> only. So a reader of
  the store never sees \<open>not_requested\<close> once the dispatch has begun.
\<close>

theorem processing_saved_before_dispatch:
  "(upload env user entryId (Some f) dur w = (AudioUploaded i r, w1, w2)
      \<longrightarrow> saved_entries (before_dispatch (new_events w w2)) \<noteq> []
          \<and> status_at i (last (saved_entries (before_dispatch (new_events w w2)))) = Some Processing
          \<and> after_dispatch (new_events w w2) \<noteq> []
          \<and> (\<forall>d \<in> set (saved_entries (after_dispatch (new_events w w2))).
                status_at i d \<in> {Some Completed, Some Failed}))
   \<and> (createEntry env user (Some f2) w = (EntryCreated e', w')
      \<longrightarrow> saved_entries (before_dispatch (new_events w w')) \<noteq> []
          \<and> status_at 0 (last (saved_entries (before_dispatch (new_events w w')))) = Some Processing
          \<and> after_dispatch (new_events w w') \<noteq> []
          \<and> (\<forall>d \<in> set (saved_entries (after_dispatch (new_events w w'))).
                status_at 0 d \<in> {Some Completed, Some Failed}))
   \<and> (\<forall>d \<in> set (saved_entries (new_events w (snd (process_job env job w)))).
         status_at (job_index job) d \<in> {Some Processing, Some Completed, Some Failed})"
proof (intro conjI impI)
  assume u: "upload env user entryId (Some f) dur w = (AudioUploaded i r, w1, w2)"
  from upload_shape [OF u] obtain p e1 e2 a where
    ev1: "events w1 = events w @ [FsWriteFile p, SaveEntry e1, SaveEntry e2]"
    and n: "nth_opt (audioRecordings e2) i = Some a" and pr: "transcriptionStatus a = Processing"
    and w2: "w2 = snd (snd (ProcessTranscription env e2 i w1))" by blast
  obtain r' d' where pt: "ProcessTranscription env e2 i w1 = (r', d', w2)"
    using w2 by (cases "ProcessTranscription env e2 i w1") auto
  from ProcessTranscription_shape [OF n pt] obtain evs where
    s: "status_at i d' \<in> {Some Completed, Some Failed}"
    and ev2: "events w2 = events w1 @ FsStat (resolve env (strip_leading_slash (url a))) # evs
                @ [SaveEntry d']"
    and sv: "saved_entries evs = []" by blast
  let ?x = "FsStat (resolve env (strip_leading_slash (url a)))"
  have "events w2 = events w @ ([FsWriteFile p, SaveEntry e1, SaveEntry e2] @ ?x # evs @ [SaveEntry d'])"
    using ev1 ev2 by simp
  then have nw: "new_events w w2 = [FsWriteFile p, SaveEntry e1, SaveEntry e2] @ ?x # evs @ [SaveEntry d']"
    by (rule new_events_append)
  have b: "before_dispatch (new_events w w2) = [FsWriteFile p, SaveEntry e1, SaveEntry e2]"
    unfolding nw by (simp add: before_dispatch_def)
  have af: "after_dispatch (new_events w w2) = ?x # evs @ [SaveEntry d']"
    unfolding nw by (simp add: after_dispatch_def)
  have s2: "status_at i e2 = Some Processing" using n pr by (simp add: status_at_def)
  show "saved_entries (before_dispatch (new_events w w2)) \<noteq> []" unfolding b by simp
  show "status_at i (last (saved_entries (before_dispatch (new_events w w2)))) = Some Processing"
    unfolding b using s2 by simp
  show "after_dispatch (new_events w w2) \<noteq> []" unfolding af by simp
  show "\<forall>d \<in> set (saved_entries (after_dispatch (new_events w w2))).
          status_at i d \<in> {Some Completed, Some Failed}"
    unfolding af using s sv by (simp add: saved_entries_append)
next
  assume c: "createEntry env user (Some f2) w = (EntryCreated e', w')"
  from createEntry_shape [OF c] obtain p e a w3 where
    ev3: "events w3 = events w @ [FsWriteFile p, SaveEntry e]"
    and ar: "audioRecordings e = [a]" and pr: "transcriptionStatus a = Processing"
    and d: "dispatch env e w3 = (e', w')" by blast
  from dispatch_shape [OF d ar] obtain x evs where
    ev: "events w' = events w3 @ x # evs" and x: "transcription_work x"
    and s: "\<forall>d \<in> set (saved_entries evs). status_at 0 d \<in> {Some Completed, Some Failed}"
    by blast
  have "events w' = events w @ ([FsWriteFile p, SaveEntry e] @ x # evs)"
    using ev3 ev by simp
  then have nw: "new_events w w' = [FsWriteFile p, SaveEntry e] @ x # evs"
    by (rule new_events_append)
  have b: "before_dispatch (new_events w w') = [FsWriteFile p, SaveEntry e]"
    unfolding nw using x by (simp add: before_dispatch_def)
  have af: "after_dispatch (new_events w w') = x # evs"
    unfolding nw using x by (simp add: after_dispatch_def)
  have s0: "status_at 0 e = Some Processing"
    using ar pr by (simp add: status_at_def nth_opt_def)
  show "saved_entries (before_dispatch (new_events w w')) \<noteq> []" unfolding b by simp
  show "status_at 0 (last (saved_entries (before_dispatch (new_events w w')))) = Some Processing"
    unfolding b using s0 by simp
  show "after_dispatch (new_events w w') \<noteq> []" unfolding af by simp
  show "\<forall>d \<in> set (saved_entries (after_dispatch (new_events w w'))).
          status_at 0 d \<in> {Some Completed, Some Failed}"
    unfolding af using s x by (simp add: saved_entries_work)
next
  show "\<forall>d \<in> set (saved_entries (new_events w (snd (process_job env job w)))).
         status_at (job_index job) d \<in> {Some Processing, Some Completed, Some Failed}"
    by (rule process_job_saved)
qed

theorem processing_saved_before_dispatch_witness:
  "map (status_at 1)
     (saved_entries (before_dispatch (new_events (demo_world demo_transcribed demo_files)
        (snd (snd (upload demo_env ''u1'' ''e1'' (Some demo_upload) None
                     (demo_world demo_transcribed demo_files)))))))
     = [Some Not_requested, Some Processing]
   \<and> map (status_at 1)
     (saved_entries (after_dispatch (new_events (demo_world demo_transcribed demo_files)
        (snd (snd (upload demo_env ''u1'' ''e1'' (Some demo_upload) None
                     (demo_world demo_transcribed demo_files)))))))
     = [Some Completed]
   \<and> status_at 0 (last (saved_entries (before_dispatch (new_events demo_empty_world
        (snd (createEntry queue_env ''u1'' (Some demo_upload) demo_empty_world))))))
     = Some Processing
   \<and> map (status_at 0)
     (saved_entries (new_events (demo_world (demo_recording Processing) demo_files)
        (snd (process_job demo_env demo_job (demo_world (demo_recording Processing) demo_files)))))
     = [Some Processing, Some Completed]"
proof -
  have sn: "show_nat 1000 = ''1000''" by code_simp
  define c where "c = createEntry queue_env ''u1'' (Some demo_upload) demo_empty_world"
  have "\<exists>e'. fst c = EntryCreated e'"
    unfolding c_def by (simp add: model_defs demo_defs Let_def sn split: prod.splits)
  then obtain e' where c: "c = (EntryCreated e', snd c)" by (cases c) auto
  from processing_saved_before_dispatch
         [where env = queue_env and user = "''u1''" and ?f2.0 = demo_upload
            and w = demo_empty_world and e' = e' and w' = "snd c",
          THEN conjunct2, THEN conjunct1]
       c
  have A: "status_at 0 (last (saved_entries (before_dispatch (new_events demo_empty_world (snd c)))))
             = Some Processing"
    unfolding c_def [symmetric] by blast
  have B: "map (status_at 1)
     (saved_entries (before_dispatch (new_events (demo_world demo_transcribed demo_files)
        (snd (snd (upload demo_env ''u1'' ''e1'' (Some demo_upload) None
                     (demo_world demo_transcribed demo_files)))))))
     = [Some Not_requested, Some Processing]"
    by (simp add: model_defs demo_defs Let_def sn new_events_def before_dispatch_def status_at_def)
  have C: "map (status_at 1)
     (saved_entries (after_dispatch (new_events (demo_world demo_transcribed demo_files)
        (snd (snd (upload demo_env ''u1'' ''e1'' (Some demo_upload) None
                     (demo_world demo_transcribed demo_files)))))))
     = [Some Completed]"
    by (simp add: model_defs demo_defs Let_def sn new_events_def after_dispatch_def status_at_def)
  have D: "map (status_at 0)
     (saved_entries (new_events (demo_world (demo_recording Processing) demo_files)
        (snd (process_job demo_env demo_job (demo_world (demo_recording Processing) demo_files)))))
     = [Some Processing, Some Completed]"
    by (simp add: model_defs demo_defs Let_def new_events_def status_at_def)
  from A B C D show ?thesis unfolding c_def by blast
qed

section \<open>C7: what a request for transcription leaves on the recording\<close>



section \<open>C8: improving a transcript\<close>

text \<open>
  Claim C8. For a recording the handler can address: when its transcript is absent or
  empty, \<open>improveTranscript\<close> answers \<open>TranscriptRequired\<close> and changes nothing. When it
  succeeds, the transcript was there and not empty, and the stored entry is the one found
  with \<open>improvedTranscript\<close> and \<open>improvedTranscriptTimestamp\<close> of this recording set and
  nothing else changed, so \<open>transcript\<close> is the same string. Both hold in every world, so
  also for a second call: it needs the transcript as the first did, and it replaces the
  improved transcript of the first.
\<close>

theorem improveTranscript_frame:
  assumes f: "findOne w entryId user = Some logEntry"
    and n: "nth_opt (audioRecordings logEntry) audioIndex = Some audio"
  shows "(transcript audio = None \<or> transcript audio = Some []
            \<longrightarrow> improveTranscript env user entryId audioIndex w = (TranscriptRequired, w))
       \<and> (\<forall>improved w'.
            improveTranscript env user entryId audioIndex w = (TranscriptImproved improved, w')
            \<longrightarrow> (\<exists>t. transcript audio = Some t \<and> t \<noteq> [])
              \<and> store w' = (store w)(entryId \<mapsto>
                    logEntry\<lparr>audioRecordings := (audioRecordings logEntry)
                      [nat audioIndex := audio\<lparr>improvedTranscript := Some improved,
                         improvedTranscriptTimestamp := Some (now env)\<rparr>]\<rparr>)
              \<and> recording_at w' entryId audioIndex
                  = Some (audio\<lparr>improvedTranscript := Some improved,
                            improvedTranscriptTimestamp := Some (now env)\<rparr>)
              \<and> map_option transcript (recording_at w' entryId audioIndex)
                  = Some (transcript audio)
              \<and> (\<forall>env2 improved2 w2.
                    improveTranscript env2 user entryId audioIndex w'
                      = (TranscriptImproved improved2, w2)
                    \<longrightarrow> recording_at w2 entryId audioIndex
                          = Some (audio\<lparr>improvedTranscript := Some improved2,
                                    improvedTranscriptTimestamp := Some (now env2)\<rparr>)))"
proof -
  have id: "entry_id logEntry = entryId" and st0: "store w entryId = Some logEntry"
    and u: "userId logEntry = user"
    using findOne_SomeD [OF f] by auto
  have rng: "0 \<le> audioIndex" "nat audioIndex < length (audioRecordings logEntry)"
    and a: "audioRecordings logEntry ! nat audioIndex = audio"
    using n by (auto simp: nth_opt_def split: if_splits)
  have one: "\<And>env0 w0 e0 a0 improved w'.
      findOne w0 entryId user = Some e0 \<Longrightarrow> nth_opt (audioRecordings e0) audioIndex = Some a0 \<Longrightarrow>
      improveTranscript env0 user entryId audioIndex w0 = (TranscriptImproved improved, w') \<Longrightarrow>
      (\<exists>t. transcript a0 = Some t \<and> t \<noteq> [])
      \<and> store w' = (store w0)(entryId \<mapsto>
            e0\<lparr>audioRecordings := (audioRecordings e0)
              [nat audioIndex := a0\<lparr>improvedTranscript := Some improved,
                 improvedTranscriptTimestamp := Some (now env0)\<rparr>]\<rparr>)"
  proof -
    fix env0 w0 e0 a0 improved w'
    assume f0: "findOne w0 entryId user = Some e0"
      and n0: "nth_opt (audioRecordings e0) audioIndex = Some a0"
      and r: "improveTranscript env0 user entryId audioIndex w0 = (TranscriptImproved improved, w')"
    have id0: "entry_id e0 = entryId" using findOne_SomeD [OF f0] by simp
    have a0: "audioRecordings e0 ! nat audioIndex = a0"
      using n0 by (auto simp: nth_opt_def split: if_splits)
    from r f0 n0 id0 a0
    show "(\<exists>t. transcript a0 = Some t \<and> t \<noteq> [])
      \<and> store w' = (store w0)(entryId \<mapsto>
            e0\<lparr>audioRecordings := (audioRecordings e0)
              [nat audioIndex := a0\<lparr>improvedTranscript := Some improved,
                 improvedTranscriptTimestamp := Some (now env0)\<rparr>]\<rparr>)"
      by (auto simp: improveTranscript_def TranscriptRequired_def Let_def store_save store_emit
          update_recording_def split: option.splits sum.splits if_splits)
  qed
  have req: "transcript audio = None \<or> transcript audio = Some []
            \<longrightarrow> improveTranscript env user entryId audioIndex w = (TranscriptRequired, w)"
    using f n by (auto simp: improveTranscript_def)
  have succ: "\<forall>improved w'.
            improveTranscript env user entryId audioIndex w = (TranscriptImproved improved, w')
            \<longrightarrow> (\<exists>t. transcript audio = Some t \<and> t \<noteq> [])
              \<and> store w' = (store w)(entryId \<mapsto>
                    logEntry\<lparr>audioRecordings := (audioRecordings logEntry)
                      [nat audioIndex := audio\<lparr>improvedTranscript := Some improved,
                         improvedTranscriptTimestamp := Some (now env)\<rparr>]\<rparr>)
              \<and> recording_at w' entryId audioIndex
                  = Some (audio\<lparr>improvedTranscript := Some improved,
                            improvedTranscriptTimestamp := Some (now env)\<rparr>)
              \<and> map_option transcript (recording_at w' entryId audioIndex)
                  = Some (transcript audio)
              \<and> (\<forall>env2 improved2 w2.
                    improveTranscript env2 user entryId audioIndex w'
                      = (TranscriptImproved improved2, w2)
                    \<longrightarrow> recording_at w2 entryId audioIndex
                          = Some (audio\<lparr>improvedTranscript := Some improved2,
                                    improvedTranscriptTimestamp := Some (now env2)\<rparr>))"
  proof (intro allI impI)
    fix improved w'
    assume r: "improveTranscript env user entryId audioIndex w = (TranscriptImproved improved, w')"
    let ?a1 = "audio\<lparr>improvedTranscript := Some improved,
                 improvedTranscriptTimestamp := Some (now env)\<rparr>"
    let ?e1 = "logEntry\<lparr>audioRecordings := (audioRecordings logEntry)[nat audioIndex := ?a1]\<rparr>"
    from one [OF f n r] have t: "\<exists>t. transcript audio = Some t \<and> t \<noteq> []"
      and st: "store w' = (store w)(entryId \<mapsto> ?e1)" by auto
    have rec: "recording_at w' entryId audioIndex = Some ?a1"
      using st rng by (simp add: recording_at_def nth_opt_def)
    have f1: "findOne w' entryId user = Some ?e1"
      using st id u by (simp add: findOne_def)
    have n1: "nth_opt (audioRecordings ?e1) audioIndex = Some ?a1"
      using rng by (simp add: nth_opt_def)
    have second: "\<forall>env2 improved2 w2.
                    improveTranscript env2 user entryId audioIndex w'
                      = (TranscriptImproved improved2, w2)
                    \<longrightarrow> recording_at w2 entryId audioIndex
                          = Some (audio\<lparr>improvedTranscript := Some improved2,
                                    improvedTranscriptTimestamp := Some (now env2)\<rparr>)"
    proof (intro allI impI)
      fix env2 improved2 w2
      assume r2: "improveTranscript env2 user entryId audioIndex w' = (TranscriptImproved improved2, w2)"
      from one [OF f1 n1 r2]
      have "store w2 = (store w')(entryId \<mapsto>
              ?e1\<lparr>audioRecordings := (audioRecordings ?e1)
                [nat audioIndex := ?a1\<lparr>improvedTranscript := Some improved2,
                   improvedTranscriptTimestamp := Some (now env2)\<rparr>]\<rparr>)" by auto
      then show "recording_at w2 entryId audioIndex
                   = Some (audio\<lparr>improvedTranscript := Some improved2,
                             improvedTranscriptTimestamp := Some (now env2)\<rparr>)"
        using rng by (simp add: recording_at_def nth_opt_def)
    qed
    show "(\<exists>t. transcript audio = Some t \<and> t \<noteq> [])
              \<and> store w' = (store w)(entryId \<mapsto> ?e1)
              \<and> recording_at w' entryId audioIndex = Some ?a1
              \<and> map_option transcript (recording_at w' entryId audioIndex)
                  = Some (transcript audio)
              \<and> (\<forall>env2 improved2 w2.
                    improveTranscript env2 user entryId audioIndex w'
                      = (TranscriptImproved improved2, w2)
                    \<longrightarrow> recording_at w2 entryId audioIndex
                          = Some (audio\<lparr>improvedTranscript := Some improved2,
                                    improvedTranscriptTimestamp := Some (now env2)\<rparr>))"
      using t st rec second by simp
  qed
  from req succ show ?thesis by blast
qed

theorem improveTranscript_frame_witness:
  "improveTranscript demo_env ''u1'' ''e1'' 0 (demo_world (demo_recording Completed) demo_files)
     = (TranscriptRequired, demo_world (demo_recording Completed) demo_files)
   \<and> map_option transcript
        (recording_at (snd (improveTranscript demo_env ''u1'' ''e1'' 0
           (demo_world demo_transcribed demo_files))) ''e1'' 0)
     = Some (Some ''old text'')
   \<and> map_option improvedTranscriptTimestamp
        (recording_at (snd (improveTranscript (demo_env\<lparr>now := 2000\<rparr>) ''u1'' ''e1'' 0
           (snd (improveTranscript demo_env ''u1'' ''e1'' 0
              (demo_world demo_transcribed demo_files))))) ''e1'' 0)
     = Some (Some 2000)"
proof -
  define x where
    "x = improveTranscript demo_env ''u1'' ''e1'' 0 (demo_world demo_transcribed demo_files)"
  define y where "y = improveTranscript (demo_env\<lparr>now := 2000\<rparr>) ''u1'' ''e1'' 0 (snd x)"
  define text1 where "text1 = ''## Notes'' @ [CHR 0x0A] @ improve_prompt ''old text''"
  have "transcript (demo_recording Completed) = None"
    by (simp add: demo_recording_def new_recording_def)
  with improveTranscript_frame [where env = demo_env,
         OF demo_findOne [of "demo_recording Completed" demo_files] demo_nth_opt]
  have 1: "improveTranscript demo_env ''u1'' ''e1'' 0 (demo_world (demo_recording Completed) demo_files)
     = (TranscriptRequired, demo_world (demo_recording Completed) demo_files)"
    by simp
  have "fst x = TranscriptImproved text1"
    unfolding x_def text1_def by (simp add: model_defs demo_defs Let_def)
  then have x: "x = (TranscriptImproved text1, snd x)" by (cases x) simp
  have "fst y = TranscriptImproved text1"
    unfolding y_def x_def text1_def by (simp add: model_defs demo_defs Let_def)
  then have y: "y = (TranscriptImproved text1, snd y)" by (cases y) simp
  have t: "transcript demo_transcribed = Some ''old text''"
    by (simp add: demo_transcribed_def)
  have X: "improveTranscript demo_env ''u1'' ''e1'' 0 (demo_world demo_transcribed demo_files)
             = (TranscriptImproved text1, snd x)"
    using x by (simp add: x_def)
  have Y: "improveTranscript (demo_env\<lparr>now := 2000\<rparr>) ''u1'' ''e1'' 0 (snd x)
             = (TranscriptImproved text1, snd y)"
    using y by (simp add: y_def)
  note T = improveTranscript_frame [where env = demo_env,
         OF demo_findOne [of demo_transcribed demo_files] demo_nth_opt,
         THEN conjunct2, rule_format, OF X]
  from T have 2: "map_option transcript (recording_at (snd x) ''e1'' 0)
                    = Some (transcript demo_transcribed)"
    by simp
  from T have "\<forall>env2 improved2 w2.
      improveTranscript env2 ''u1'' ''e1'' 0 (snd x) = (TranscriptImproved improved2, w2)
      \<longrightarrow> recording_at w2 ''e1'' 0
            = Some (demo_transcribed\<lparr>improvedTranscript := Some improved2,
                      improvedTranscriptTimestamp := Some (now env2)\<rparr>)"
    by simp
  with Y have 3: "recording_at (snd y) ''e1'' 0
              = Some (demo_transcribed\<lparr>improvedTranscript := Some text1,
                        improvedTranscriptTimestamp := Some (now (demo_env\<lparr>now := 2000\<rparr>))\<rparr>)"
    by blast
  from 1 2 3 show ?thesis
    unfolding x_def [symmetric] y_def [symmetric] by (simp add: t)
qed

section \<open>C9: the options of an enqueued job\<close>

text \<open>
  Claim C9. Every job the create-entry handler hands to the queue is added with the options
  of config/queue.js: 3 attempts in total, an exponential backoff with a base delay of
  2000 ms, and the last 200 failed jobs kept. (No other handler adds a job.)
\<close>

theorem enqueued_job_options:
  assumes "createEntry env user audioFile w = (resp, w')"
  shows "\<forall>job opts. (job, opts) \<in> set (queued_jobs (new_events w w'))
           \<longrightarrow> attempts opts = 3 \<and> backoff_type opts = ''exponential''
               \<and> backoff_delay opts = 2000 \<and> removeOnFail opts = 200"
proof -
  from createEntry_queued_jobs [OF assms] obtain evs where
    evs: "events w' = events w @ evs"
         "queued_jobs evs = [] \<or> (\<exists>job. queued_jobs evs = [(job, defaultJobOptions)])"
    by blast
  have "new_events w w' = evs" using evs(1) by (rule new_events_append)
  with evs(2) show ?thesis by (auto simp: defaultJobOptions_def)
qed

theorem enqueued_job_options_witness:
  "queued_jobs (new_events demo_empty_world
      (snd (createEntry queue_env ''u1'' (Some demo_upload) demo_empty_world)))
     = [(\<lparr>job_entryId = ''e2'',
          job_audioUrl = ''/uploads/audio/u1_1000_b_1_.webm'',
          job_recordingIndex = Some 0\<rparr>, defaultJobOptions)]
   \<and> attempts defaultJobOptions = 3 \<and> backoff_type defaultJobOptions = ''exponential''
   \<and> backoff_delay defaultJobOptions = 2000 \<and> removeOnFail defaultJobOptions = 200"
proof -
  define w' where "w' = snd (createEntry queue_env ''u1'' (Some demo_upload) demo_empty_world)"
  have c: "createEntry queue_env ''u1'' (Some demo_upload) demo_empty_world
             = (fst (createEntry queue_env ''u1'' (Some demo_upload) demo_empty_world), w')"
    by (simp add: w'_def)
  have sn: "show_nat 1000 = ''1000''"
    by code_simp
  have q: "queued_jobs (new_events demo_empty_world w')
     = [(\<lparr>job_entryId = ''e2'',
          job_audioUrl = ''/uploads/audio/u1_1000_b_1_.webm'',
          job_recordingIndex = Some 0\<rparr>, defaultJobOptions)]"
    unfolding w'_def
    by (simp add: createEntry_def dispatch_def new_recording_def save_def emit_def sanitize_def
        new_events_def demo_defs Let_def sn)
  from enqueued_job_options [OF c] q show ?thesis
    unfolding w'_def by simp
qed

section \<open>C10: a failed attempt and the transcript of an earlier success\<close>

text \<open>
  When a run of the queue's processor throws, the recording it addressed is the recording
  it found with \<open>transcriptionStatus\<close> set to \<open>failed\<close> and \<open>transcriptionError\<close> set to
  the message, and nothing else changed: its \<open>catch\<close> fetches the entry again, so the
  \<open>transcript\<close> is the one the recording had. The same holds of a run of
  \<open>ProcessTranscription\<close> that throws, unless what failed is the save of the transcribed
  document at the end of its \<open>try\<close> block.
\<close>

lemma failed_attempt_transcript:
  "(ProcessTranscription env d i w = (Inl msg, d', w') \<and> nth_opt (audioRecordings d) i = Some a
      \<longrightarrow> (nth_opt (audioRecordings d') i = Some (mark_failed msg a)
           \<and> recording_at w' (entry_id d) i = Some (mark_failed msg a)
           \<and> map_option transcript (recording_at w' (entry_id d) i) = Some (transcript a))
          \<or> (\<exists>b t. files w (audio_path env a) = Some (Readable b)
                \<and> backend_answer env b = Inr t
                \<and> save_rejected env (update_recording d i (mark_completed env t)) = Some msg
                \<and> recording_at w' (entry_id d) i
                    = Some (mark_failed msg (mark_completed env t a))))
   \<and> (process_job env job w = (Inl msg2, w2) \<and> findById w (job_entryId job) = Some e
        \<and> nth_opt (audioRecordings e) (job_index job) = Some a2
      \<longrightarrow> recording_at w2 (job_entryId job) (job_index job) = Some (mark_failed msg2 a2)
          \<and> map_option transcript (recording_at w2 (job_entryId job) (job_index job))
            = Some (transcript a2))"
proof (intro conjI impI)
  assume h: "ProcessTranscription env d i w = (Inl msg, d', w') \<and> nth_opt (audioRecordings d) i = Some a"
  then have pt: "ProcessTranscription env d i w = (Inl msg, d', w')"
    and n: "nth_opt (audioRecordings d) i = Some a" by auto
  have nf: "\<And>m. nth_opt (audioRecordings (update_recording d i (mark_failed m))) i
              = Some (mark_failed m a)"
    using nth_opt_update_recording [OF n] by simp
  have nc: "\<And>t. nth_opt (audioRecordings (update_recording d i (mark_completed env t))) i
              = Some (mark_completed env t a)"
    using nth_opt_update_recording [OF n] by simp
  have nfc: "\<And>t m. nth_opt (audioRecordings
                (update_recording (update_recording d i (mark_completed env t)) i (mark_failed m))) i
              = Some (mark_failed m (mark_completed env t a))"
    using nth_opt_update_recording [OF nc] by simp
  from ProcessTranscription_cases [OF n, of w env] pt
  show "(nth_opt (audioRecordings d') i = Some (mark_failed msg a)
           \<and> recording_at w' (entry_id d) i = Some (mark_failed msg a)
           \<and> map_option transcript (recording_at w' (entry_id d) i) = Some (transcript a))
          \<or> (\<exists>b t. files w (audio_path env a) = Some (Readable b)
                \<and> backend_answer env b = Inr t
                \<and> save_rejected env (update_recording d i (mark_completed env t)) = Some msg
                \<and> recording_at w' (entry_id d) i
                    = Some (mark_failed msg (mark_completed env t a)))"
    by (elim disjE exE conjE)
       (auto simp: recording_at_def store_save entry_id_update_recording nf nfc)
next
  assume h: "process_job env job w = (Inl msg2, w2) \<and> findById w (job_entryId job) = Some e
        \<and> nth_opt (audioRecordings e) (job_index job) = Some a2"
  then show 3: "recording_at w2 (job_entryId job) (job_index job) = Some (mark_failed msg2 a2)"
    using process_job_Inl by blast
  show "map_option transcript (recording_at w2 (job_entryId job) (job_index job))
            = Some (transcript a2)"
    using 3 by simp
qed

text \<open>
  Claim C10 fails on the inline path when the store rejects that save.
  \<open>ProcessTranscription\<close> assigns the new transcript, the status and the timestamp to the
  document before it saves; when the save is rejected, its \<open>catch\<close> marks the same document
  \<open>failed\<close> and saves it. Here a recording that holds the transcript of an earlier success
  is transcribed again through \<open>requestTranscription\<close>, the store rejects the save of the
  transcribed document and accepts the next one: the attempt ends \<open>failed\<close>, with the
  error of the store, and the old transcript is replaced by the new one. The queue's
  processor, given the same recording and the same store, ends \<open>failed\<close> with the old
  transcript in place.
\<close>

theorem inline_failure_overwrites_transcript:
  "transcript demo_transcribed = Some ''old text''
   \<and> fst (requestTranscription rejecting_env ''u1'' ''e1'' 0
            (demo_world demo_transcribed demo_files))
     = ErrorResponse 500 ''Failed to transcribe audio'' (Some ''TRANSCRIPTION_ERROR'')
         (Some ''connection lost'')
   \<and> map_option transcriptionStatus
        (recording_at (snd (requestTranscription rejecting_env ''u1'' ''e1'' 0
           (demo_world demo_transcribed demo_files))) ''e1'' 0)
     = Some Failed
   \<and> map_option transcriptionError
        (recording_at (snd (requestTranscription rejecting_env ''u1'' ''e1'' 0
           (demo_world demo_transcribed demo_files))) ''e1'' 0)
     = Some (Some ''connection lost'')
   \<and> map_option transcript
        (recording_at (snd (requestTranscription rejecting_env ''u1'' ''e1'' 0
           (demo_world demo_transcribed demo_files))) ''e1'' 0)
     = Some (Some ''short text'')
   \<and> map_option transcriptionStatus
        (recording_at (snd (process_job rejecting_env demo_job
           (demo_world demo_transcribed demo_files))) ''e1'' 0)
     = Some Failed
   \<and> map_option transcript
        (recording_at (snd (process_job rejecting_env demo_job
           (demo_world demo_transcribed demo_files))) ''e1'' 0)
     = Some (Some ''old text'')"
  by (simp add: model_defs demo_defs Let_def status_at_def)
end
